theory Spec2Isabelle
  imports Complex_Main "HOL-Library.Multiset"
begin

section \<open>Python values, failures and the outside world\<close>

text \<open>
  The values that \<open>response.json()\<close> hands to \<open>dashboard.py\<close>. Both services answer with
  objects, arrays, strings and null: the entity search gives every field of a document as an
  array of strings, and the SPARQL JSON results format gives every term as an object whose
  \<open>"value"\<close> is a string. JSON numbers and booleans are therefore left out of the model.
  An object is kept as the list of its members; \<open>map_of\<close> reads a key.
\<close>

datatype json = JNull | JStr string | JArr "json list" | JObj "(string \<times> json) list"

text \<open>
  The exceptions the code can meet. The first three come out of \<open>requests\<close>
  (\<open>requests.get\<close>/\<open>requests.post\<close>, \<open>raise_for_status\<close>, \<open>response.json\<close>); the others are
  raised by the Python operations of the module itself.
\<close>

datatype error =
    ConnectionError | HTTPError | JSONDecodeError
  | AttributeError | TypeError | IndexError | KeyError | ValueError

text \<open>
  A Python float, by its exact value. Only two things about it matter to the module: which
  strings \<open>float\<close> accepts, and truthiness (\<open>bool(x)\<close> is \<open>x != 0.0\<close>, so \<open>nan\<close> and the
  infinities are true, and \<open>-0.0\<close>, which equals \<open>0.0\<close>, is \<open>Fin 0\<close> here).
\<close>

datatype pyfloat = Fin rat | PosInf | NegInf | NaN

type_synonym coord = "pyfloat option \<times> pyfloat option"

text \<open>
  What the module does not define itself is a parameter: the answer of the entity-search
  endpoint to a GET on a URL, the answer of the SPARQL endpoint to a POSTed query (each either
  a failure of the request or the decoded JSON body, and the same for the same request as long
  as the process runs), Python's \<open>float\<close> on a string
  (\<open>None\<close> where it raises \<open>ValueError\<close>), and numpy's \<open>argsort\<close> of a column of counts
  with the default kind of sort, which pandas calls to sort the table: the positions of the
  column in rising order of their counts, equal counts in whatever order numpy leaves them.
\<close>

record env =
  lookup_service :: "string \<Rightarrow> error + json"
  sparql_service :: "string \<Rightarrow> error + json"
  float_of_str :: "string \<Rightarrow> pyfloat option"
  argsort :: "nat list \<Rightarrow> nat list"

datatype request = GET string | POST string string

text \<open>
  The state of the process: the three \<open>functools.cache\<close> stores and the requests sent so
  far, oldest first. A cache is an association list, newest entry first.
\<close>

record world =
  top1_cache :: "(string \<times> json) list"
  lookup_cache :: "(string \<times> json) list"
  geocode_cache :: "(json \<times> coord) list"
  requests :: "request list"

definition init_world :: world where
  "init_world = \<lparr>top1_cache = [], lookup_cache = [], geocode_cache = [], requests = []\<rparr>"

type_synonym 'a comp = "world \<Rightarrow> (error + 'a) \<times> world"

subsection \<open>The Python operations the module uses\<close>

text \<open>\<open>bool(v)\<close>, as \<open>not r\<close>, \<open>not uri\<close> and \<open>not bindings\<close> test it.\<close>

fun truthy :: "json \<Rightarrow> bool" where
  "truthy JNull = False"
| "truthy (JStr s) = (s \<noteq> [])"
| "truthy (JArr xs) = (xs \<noteq> [])"
| "truthy (JObj kvs) = (kvs \<noteq> [])"

text \<open>\<open>v.get(key, default)\<close>: only a dict has the method.\<close>

fun py_get :: "json \<Rightarrow> string \<Rightarrow> json \<Rightarrow> error + json" where
  "py_get (JObj kvs) key dflt = Inr (case map_of kvs key of Some v \<Rightarrow> v | None \<Rightarrow> dflt)"
| "py_get _ key dflt = Inl AttributeError"

text \<open>
  \<open>v[0]\<close>: the first element of a list, the first character of a string, \<open>IndexError\<close> when
  either is empty; a dict decoded from JSON has string keys only, so \<open>0\<close> is a \<open>KeyError\<close>;
  \<open>None\<close> is not subscriptable.
\<close>

fun py_first :: "json \<Rightarrow> error + json" where
  "py_first (JArr []) = Inl IndexError"
| "py_first (JArr (x # xs)) = Inr x"
| "py_first (JStr []) = Inl IndexError"
| "py_first (JStr (c # cs)) = Inr (JStr [c])"
| "py_first (JObj kvs) = Inl KeyError"
| "py_first JNull = Inl TypeError"

text \<open>\<open>float(v)\<close>: a string is parsed, anything else here is a \<open>TypeError\<close>.\<close>

fun py_float :: "env \<Rightarrow> json \<Rightarrow> error + pyfloat" where
  "py_float E (JStr s) = (case float_of_str E s of None \<Rightarrow> Inl ValueError | Some x \<Rightarrow> Inr x)"
| "py_float E _ = Inl TypeError"

definition float_truthy :: "pyfloat \<Rightarrow> bool" where
  "float_truthy x = (x \<noteq> Fin 0)"

text \<open>\<open>x or None\<close> for a float \<open>x\<close>.\<close>

definition or_None :: "pyfloat \<Rightarrow> pyfloat option" where
  "or_None x = (if float_truthy x then Some x else None)"

text \<open>The truth value of a component of a coordinate, as \<open>if lat and long\<close> tests it.\<close>

definition component_truthy :: "pyfloat option \<Rightarrow> bool" where
  "component_truthy c = (case c of None \<Rightarrow> False | Some x \<Rightarrow> float_truthy x)"

text \<open>
  \<open>functools.cache\<close> hashes the argument before anything else: a list or a dict is
  unhashable and the call raises \<open>TypeError\<close>.
\<close>

fun hashable :: "json \<Rightarrow> bool" where
  "hashable (JArr xs) = False"
| "hashable (JObj kvs) = False"
| "hashable _ = True"

section \<open>Entity lookup\<close>

definition lookup_url :: "string \<Rightarrow> string" where
  "lookup_url toponyme =
     ''https://fr.dbpedia.org/lookup/api/search?query='' @ toponyme @ ''&format=JSON''"

text \<open>\<open>response.json().get("docs", [])\<close>\<close>

definition docs_of :: "json \<Rightarrow> error + json" where
  "docs_of body = py_get body ''docs'' (JArr [])"

text \<open>
  \<open>dbpedia_lookup\<close> under \<open>@cache\<close>: a stored result is returned as it is; otherwise the
  request is sent, and only a returned value is stored (an exception leaves the cache as it
  was).
\<close>

definition dbpedia_lookup :: "env \<Rightarrow> string \<Rightarrow> json comp" where
  "dbpedia_lookup E toponyme w =
     (case map_of (lookup_cache w) toponyme of
        Some r \<Rightarrow> (Inr r, w)
      | None \<Rightarrow>
          (let query = lookup_url toponyme;
               w1 = w\<lparr>requests := requests w @ [GET query]\<rparr>
           in (case lookup_service E query of
                Inl e \<Rightarrow> (Inl e, w1)
              | Inr body \<Rightarrow>
                  (case docs_of body of
                     Inl e \<Rightarrow> (Inl e, w1)
                   | Inr docs \<Rightarrow>
                       (Inr docs, w1\<lparr>lookup_cache := (toponyme, docs) # lookup_cache w1\<rparr>)))))"

text \<open>The body of \<open>dbpedia_top1\<close> once \<open>r\<close> is known.\<close>

definition top1_of :: "json \<Rightarrow> error + json" where
  "top1_of r =
     (if \<not> truthy r then Inr JNull
      else (case py_first r of
              Inl e \<Rightarrow> Inl e
            | Inr doc \<Rightarrow>
                (case py_get doc ''resource'' JNull of
                   Inl e \<Rightarrow> Inl e
                 | Inr res \<Rightarrow> py_first res)))"

definition dbpedia_top1 :: "env \<Rightarrow> string \<Rightarrow> json comp" where
  "dbpedia_top1 E toponyme w =
     (case map_of (top1_cache w) toponyme of
        Some u \<Rightarrow> (Inr u, w)
      | None \<Rightarrow>
          (case dbpedia_lookup E toponyme w of
             (Inl e, w1) \<Rightarrow> (Inl e, w1)
           | (Inr r, w1) \<Rightarrow>
               (case top1_of r of
                  Inl e \<Rightarrow> (Inl e, w1)
                | Inr u \<Rightarrow> (Inr u, w1\<lparr>top1_cache := (toponyme, u) # top1_cache w1\<rparr>))))"

section \<open>Geocoding\<close>

text \<open>\<open>"%s" % uri\<close> for the arguments that get past the cache's hashing.\<close>

fun format_s :: "json \<Rightarrow> string" where
  "format_s (JStr s) = s"
| "format_s _ = ''None''"

definition sparql_endpoint :: string where
  "sparql_endpoint = ''http://fr.dbpedia.org/sparql''"

definition sparql_query :: "json \<Rightarrow> string" where
  "sparql_query uri =
     ''PREFIX geo: <http://www.w3.org/2003/01/geo/wgs84_pos#> SELECT ?lat ?long WHERE {<''
       @ format_s uri @ ''> (geo:lat) ?lat ; (geo:long) ?long. }''"

text \<open>\<open>b.get(name, {}).get("value", None)\<close>\<close>

definition binding_value :: "json \<Rightarrow> string \<Rightarrow> error + json" where
  "binding_value b name =
     (case py_get b name (JObj []) of
        Inl e \<Rightarrow> Inl e
      | Inr term \<Rightarrow> py_get term ''value'' JNull)"

text \<open>\<open>float(v) or None\<close>\<close>

definition float_or_None :: "env \<Rightarrow> json \<Rightarrow> error + pyfloat option" where
  "float_or_None E v = (case py_float E v of Inl e \<Rightarrow> Inl e | Inr x \<Rightarrow> Inr (or_None x))"

text \<open>\<open>json_response.get("results", {}).get("bindings", [])\<close>\<close>

definition bindings_of :: "json \<Rightarrow> error + json" where
  "bindings_of json_response =
     (case py_get json_response ''results'' (JObj []) of
        Inl e \<Rightarrow> Inl e
      | Inr results \<Rightarrow> py_get results ''bindings'' (JArr []))"

text \<open>
  The statements of \<open>geocode\<close> after \<open>bindings = bindings[0]\<close>: both values are read
  before either is converted, and the latitude is converted first.
\<close>

definition lat_long_of :: "env \<Rightarrow> json \<Rightarrow> error + coord" where
  "lat_long_of E b =
     (case binding_value b ''lat'' of
        Inl e \<Rightarrow> Inl e
      | Inr lat \<Rightarrow>
     (case binding_value b ''long'' of
        Inl e \<Rightarrow> Inl e
      | Inr long \<Rightarrow>
     (case float_or_None E lat of
        Inl e \<Rightarrow> Inl e
      | Inr lat' \<Rightarrow>
     (case float_or_None E long of
        Inl e \<Rightarrow> Inl e
      | Inr long' \<Rightarrow> Inr (lat', long')))))"

text \<open>The body of \<open>geocode\<close> from \<open>json_response\<close> on.\<close>

definition coords_of :: "env \<Rightarrow> json \<Rightarrow> error + coord" where
  "coords_of E json_response =
     (case bindings_of json_response of
        Inl e \<Rightarrow> Inl e
      | Inr bindings \<Rightarrow>
          (if \<not> truthy bindings then Inr (None, None)
           else (case py_first bindings of
                   Inl e \<Rightarrow> Inl e
                 | Inr b \<Rightarrow> lat_long_of E b)))"

definition geocode :: "env \<Rightarrow> json \<Rightarrow> coord comp" where
  "geocode E uri w =
     (if \<not> hashable uri then (Inl TypeError, w)
      else (case map_of (geocode_cache w) uri of
        Some c \<Rightarrow> (Inr c, w)
      | None \<Rightarrow>
          (let q = sparql_query uri;
               w1 = w\<lparr>requests := requests w @ [POST sparql_endpoint q]\<rparr>
           in (case sparql_service E q of
                Inl e \<Rightarrow> (Inl e, w1)
              | Inr json_response \<Rightarrow>
                  (case coords_of E json_response of
                     Inl e \<Rightarrow> (Inl e, w1)
                   | Inr c \<Rightarrow> (Inr c, w1\<lparr>geocode_cache := (uri, c) # geocode_cache w1\<rparr>))))))"

section \<open>Resolution of a toponym\<close>

text \<open>The two \<open>print\<close> calls of \<open>resolution\<close> write to the console only and are left out.\<close>

definition resolution :: "env \<Rightarrow> string \<Rightarrow> coord comp" where
  "resolution E toponyme w =
     (case dbpedia_top1 E toponyme w of
        (Inl e, w1) \<Rightarrow> (Inl e, w1)
      | (Inr uri, w1) \<Rightarrow>
          (if \<not> truthy uri then (Inr (None, None), w1) else geocode E uri w1))"

section \<open>The table of counts\<close>

text \<open>
  \<open>dict(Counter(loc))\<close>: one entry per distinct toponym, in the order of first occurrence,
  with the number of its occurrences.
\<close>

fun bump :: "string \<Rightarrow> (string \<times> nat) list \<Rightarrow> (string \<times> nat) list" where
  "bump k [] = [(k, 1)]"
| "bump k ((k', n) # kvs) = (if k = k' then (k', Suc n) # kvs else (k', n) # bump k kvs)"

definition Counter :: "string list \<Rightarrow> (string \<times> nat) list" where
  "Counter loc = foldl (\<lambda>c k. bump k c) [] loc"

record row =
  toponym :: string
  occs :: nat
  db_pedia :: json
  coordinates :: coord

text \<open>
  The loop of \<open>count_table\<close>. The list display is evaluated left to right:
  \<open>dbpedia_top1(k)\<close>, then \<open>dbpedia_top1(k)\<close> again as the argument of \<open>geocode\<close>, then
  \<open>geocode\<close>, whatever the reference is.
\<close>

fun fill_rows :: "env \<Rightarrow> (string \<times> nat) list \<Rightarrow> row list comp" where
  "fill_rows E [] w = (Inr [], w)"
| "fill_rows E ((k, v) # kvs) w =
     (case dbpedia_top1 E k w of
        (Inl e, w1) \<Rightarrow> (Inl e, w1)
      | (Inr u, w1) \<Rightarrow>
     (case dbpedia_top1 E k w1 of
        (Inl e, w2) \<Rightarrow> (Inl e, w2)
      | (Inr u', w2) \<Rightarrow>
     (case geocode E u' w2 of
        (Inl e, w3) \<Rightarrow> (Inl e, w3)
      | (Inr c, w3) \<Rightarrow>
     (case fill_rows E kvs w3 of
        (Inl e, w4) \<Rightarrow> (Inl e, w4)
      | (Inr rows, w4) \<Rightarrow>
          (Inr (\<lparr>toponym = k, occs = v, db_pedia = u, coordinates = c\<rparr> # rows), w4)))))"

text \<open>
  The cells of the data frame and pandas' test for a missing one: \<open>None\<close> is missing, a
  number is not, and a tuple is an object that is not missing, whatever it holds.
\<close>

datatype cell = CInt nat | CObj json | CTuple coord

fun isna :: "cell \<Rightarrow> bool" where
  "isna (CObj v) = (v = JNull)"
| "isna (CInt n) = False"
| "isna (CTuple c) = False"

definition cells :: "row \<Rightarrow> cell list" where
  "cells r = [CInt (occs r), CObj (db_pedia r), CTuple (coordinates r)]"

text \<open>\<open>df.dropna(how='any', axis=0)\<close>: a row goes when any of its cells is missing.\<close>

definition dropna :: "row list \<Rightarrow> row list" where
  "dropna rows = filter (\<lambda>r. \<not> list_ex isna (cells r)) rows"

text \<open>
  \<open>df.sort_values(by=['occs'], ascending=False)\<close>, as pandas computes it for one column: the
  counts and their positions are reversed, \<open>argsort\<close> orders the reversed counts, the
  positions are taken in that order and reversed again, and the rows are taken at these
  positions. The order of rows of equal count is the one \<open>argsort\<close> gives.
\<close>

definition sort_values :: "env \<Rightarrow> row list \<Rightarrow> row list" where
  "sort_values E rows =
     (let non_nans = rev (map occs rows);
          non_nan_idx = rev [0..<length rows];
          indexer = rev (map (\<lambda>i. non_nan_idx ! i) (argsort E non_nans))
      in map (\<lambda>i. rows ! i) indexer)"

definition count_table :: "env \<Rightarrow> string list \<Rightarrow> row list comp" where
  "count_table E loc w =
     (case fill_rows E (Counter loc) w of
        (Inl e, w1) \<Rightarrow> (Inl e, w1)
      | (Inr rows, w1) \<Rightarrow> (Inr (sort_values E (dropna rows)), w1))"

section \<open>The callback\<close>

text \<open>\<open>[resolution(toponyme) for toponyme in loc]\<close>\<close>

fun resolve_all :: "env \<Rightarrow> string list \<Rightarrow> coord list comp" where
  "resolve_all E [] w = (Inr [], w)"
| "resolve_all E (t # ts) w =
     (case resolution E t w of
        (Inl e, w1) \<Rightarrow> (Inl e, w1)
      | (Inr c, w1) \<Rightarrow>
          (case resolve_all E ts w1 of
             (Inl e, w2) \<Rightarrow> (Inl e, w2)
           | (Inr cs, w2) \<Rightarrow> (Inr (c # cs), w2)))"

text \<open>\<open>[(lat, long) for lat, long in coordonnees if lat and long]\<close>\<close>

definition coordonnees_valides :: "coord list \<Rightarrow> coord list" where
  "coordonnees_valides cs =
     filter (\<lambda>(lat, long). component_truthy lat \<and> component_truthy long) cs"

text \<open>
  \<open>HeatMap(coordonnees_valides).add_to(folium_map)\<close>: folium refuses data that holds a NaN
  with a \<open>ValueError\<close>, and takes any other list of pairs of floats.
\<close>

definition HeatMap :: "coord list \<Rightarrow> error + unit" where
  "HeatMap data =
     (if list_ex (\<lambda>(lat, long). lat = Some NaN \<or> long = Some NaN) data then Inl ValueError
      else Inr ())"

text \<open>
  \<open>fetch_and_map\<close> from the list \<open>loc\<close> of the texts of the LOC entities on: the coordinates
  of every occurrence, the valid ones among them, the heat map made of these, then the table.
  Fetching the page and running the NER model come before and are not modelled; the rendering
  of the map and of the table to HTML comes after.
\<close>

definition fetch_and_map :: "env \<Rightarrow> string list \<Rightarrow> (coord list \<times> row list) comp" where
  "fetch_and_map E loc w =
     (case resolve_all E loc w of
        (Inl e, w1) \<Rightarrow> (Inl e, w1)
      | (Inr coordonnees, w1) \<Rightarrow>
          (case HeatMap (coordonnees_valides coordonnees) of
             Inl e \<Rightarrow> (Inl e, w1)
           | Inr heat \<Rightarrow>
               (case count_table E loc w1 of
                  (Inl e, w2) \<Rightarrow> (Inl e, w2)
                | (Inr df, w2) \<Rightarrow> (Inr (coordonnees_valides coordonnees, df), w2))))"

section \<open>Runs of the process\<close>

text \<open>
  The caches live as long as the process, so a call meets the state that all the earlier
  calls have left. A run is a sequence of calls of the module's functions, each started in
  the state the one before has left, whether it returned or raised.
\<close>

datatype call =
    Lookup string | Top1 string | Geocode json | Resolution string
  | CountTable "string list" | FetchAndMap "string list"

fun after_call :: "env \<Rightarrow> world \<Rightarrow> call \<Rightarrow> world" where
  "after_call E w (Lookup t) = snd (dbpedia_lookup E t w)"
| "after_call E w (Top1 t) = snd (dbpedia_top1 E t w)"
| "after_call E w (Geocode u) = snd (geocode E u w)"
| "after_call E w (Resolution t) = snd (resolution E t w)"
| "after_call E w (CountTable loc) = snd (count_table E loc w)"
| "after_call E w (FetchAndMap loc) = snd (fetch_and_map E loc w)"

definition after_calls :: "env \<Rightarrow> world \<Rightarrow> call list \<Rightarrow> world" where
  "after_calls E w cs = foldl (after_call E) w cs"

text \<open>The requests of a log that went to the SPARQL endpoint.\<close>

fun is_post :: "request \<Rightarrow> bool" where
  "is_post (POST url body) = True"
| "is_post (GET url) = False"

definition posts :: "world \<Rightarrow> request list" where
  "posts w = filter is_post (requests w)"

text \<open>
  A state \<open>w'\<close> extends \<open>w\<close> when every cache entry of \<open>w\<close> is still readable in \<open>w'\<close>.
\<close>

definition extends :: "world \<Rightarrow> world \<Rightarrow> bool" where
  "extends w w' =
     ((\<forall>k v. map_of (lookup_cache w) k = Some v \<longrightarrow> map_of (lookup_cache w') k = Some v) \<and>
      (\<forall>k v. map_of (top1_cache w) k = Some v \<longrightarrow> map_of (top1_cache w') k = Some v) \<and>
      (\<forall>k v. map_of (geocode_cache w) k = Some v \<longrightarrow> map_of (geocode_cache w') k = Some v))"

text \<open>
  What each cached function returns when nothing is stored for its argument: the value of
  its body on the answer of the service.
\<close>

definition lookup_value :: "env \<Rightarrow> string \<Rightarrow> error + json" where
  "lookup_value E t =
     (case lookup_service E (lookup_url t) of Inl e \<Rightarrow> Inl e | Inr body \<Rightarrow> docs_of body)"

definition top1_value :: "env \<Rightarrow> string \<Rightarrow> error + json" where
  "top1_value E t = (case lookup_value E t of Inl e \<Rightarrow> Inl e | Inr r \<Rightarrow> top1_of r)"

definition geocode_value :: "env \<Rightarrow> json \<Rightarrow> error + coord" where
  "geocode_value E u =
     (if \<not> hashable u then Inl TypeError
      else (case sparql_service E (sparql_query u) of
              Inl e \<Rightarrow> Inl e
            | Inr json_response \<Rightarrow> coords_of E json_response))"

text \<open>A state is coherent when every cache entry is the value its function computes.\<close>

definition coherent :: "env \<Rightarrow> world \<Rightarrow> bool" where
  "coherent E w =
     ((\<forall>k v. map_of (lookup_cache w) k = Some v \<longrightarrow> lookup_value E k = Inr v) \<and>
      (\<forall>k v. map_of (top1_cache w) k = Some v \<longrightarrow> top1_value E k = Inr v) \<and>
      (\<forall>k v. map_of (geocode_cache w) k = Some v \<longrightarrow> geocode_value E k = Inr v))"

text \<open>
  A state \<open>w'\<close> grows from \<open>w\<close> when every entry of its lookup and geocoding caches is an
  entry of \<open>w\<close> or the value the function computes: nothing else is ever stored.
\<close>

definition grows :: "env \<Rightarrow> world \<Rightarrow> world \<Rightarrow> bool" where
  "grows E w w' =
     ((\<forall>k v. map_of (lookup_cache w') k = Some v \<longrightarrow>
          map_of (lookup_cache w) k = Some v \<or> lookup_value E k = Inr v) \<and>
      (\<forall>k v. map_of (geocode_cache w') k = Some v \<longrightarrow>
          map_of (geocode_cache w) k = Some v \<or> geocode_value E k = Inr v))"

text \<open>
  What numpy promises of \<open>argsort\<close>: the result holds every position of the column once,
  and the counts read at these positions rise.
\<close>

definition argsort_sorts :: "env \<Rightarrow> bool" where
  "argsort_sorts E =
     (\<forall>xs. mset (argsort E xs) = mset [0..<length xs] \<and>
           sorted (map (\<lambda>i. xs ! i) (argsort E xs)))"

text \<open>The count a counter holds for a key, zero when the key is not in it.\<close>

definition cnt :: "(string \<times> nat) list \<Rightarrow> string \<Rightarrow> nat" where
  "cnt c k = (case map_of c k of None \<Rightarrow> 0 | Some n \<Rightarrow> n)"

section \<open>Sample answers of the two services\<close>

text \<open>
  A small world to run the module in. The entity search knows Paris (two candidates), Lyon,
  Marseille, an island at latitude and longitude zero, Utopie (an entity without
  coordinates), Ys (an entity whose only binding has no longitude), Babel (its latitude is
  not a number), Erewhon (its latitude is \<open>nan\<close>), Eden (a document without a \<open>resource\<close> field), Limbes (a document whose
  \<open>resource\<close> list is empty) and Nemo (a document whose reference is the empty string); it
  finds nothing for Atlantide, and the request fails for any other name. The SPARQL endpoint
  fails for Marseille, and it knows coordinates for the empty reference.
\<close>

definition uri_of :: "string \<Rightarrow> string" where
  "uri_of name = ''http://fr.dbpedia.org/resource/'' @ name"

definition doc_of :: "string \<Rightarrow> json" where
  "doc_of u = JObj [(''resource'', JArr [JStr u])]"

definition lookup_answer :: "json list \<Rightarrow> json" where
  "lookup_answer docs = JObj [(''docs'', JArr docs)]"

definition term_of :: "string \<Rightarrow> json" where
  "term_of s = JObj [(''type'', JStr ''literal''), (''value'', JStr s)]"

definition sparql_answer :: "json list \<Rightarrow> json" where
  "sparql_answer bs = JObj [(''results'', JObj [(''bindings'', JArr bs)])]"

definition lat_long :: "string \<Rightarrow> string \<Rightarrow> json" where
  "lat_long a b = JObj [(''lat'', term_of a), (''long'', term_of b)]"

text \<open>
  Python's \<open>float\<close> on the strings the sample uses: each number with its exact value and
  \<open>nan\<close>; it rejects \<open>trente-deux\<close>, the one other string the sample hands to it.
\<close>

definition sample_float :: "string \<Rightarrow> pyfloat option" where
  "sample_float s =
     map_of [(''0.0'', Fin 0), (''48.75'', Fin (195 / 4)), (''2.5'', Fin (5 / 2)),
             (''45.75'', Fin (183 / 4)), (''4.75'', Fin (19 / 4)), (''44.5'', Fin (89 / 2)),
             (''nan'', NaN)] s"

text \<open>
  Two sorts that \<open>argsort\<close> can be: both give the positions in rising order of the counts;
  the first leaves equal counts in the order of their positions (a stable sort), the second
  in the opposite order.
\<close>

definition stable_argsort :: "nat list \<Rightarrow> nat list" where
  "stable_argsort xs = sort_key (\<lambda>i. xs ! i) [0..<length xs]"

definition reversing_argsort :: "nat list \<Rightarrow> nat list" where
  "reversing_argsort xs = sort_key (\<lambda>i. xs ! i) (rev [0..<length xs])"

definition service :: "(string \<times> (error + json)) list \<Rightarrow> string \<Rightarrow> error + json" where
  "service table q = (case map_of table q of Some r \<Rightarrow> r | None \<Rightarrow> Inl ConnectionError)"

definition sample_env :: env where
  "sample_env = \<lparr>
     lookup_service = service
       [(lookup_url ''Paris'',
           Inr (lookup_answer [doc_of (uri_of ''Paris''), doc_of (uri_of ''Paris_(Texas)'')])),
        (lookup_url ''Lyon'', Inr (lookup_answer [doc_of (uri_of ''Lyon'')])),
        (lookup_url ''Marseille'', Inr (lookup_answer [doc_of (uri_of ''Marseille'')])),
        (lookup_url ''Null Island'', Inr (lookup_answer [doc_of (uri_of ''Null_Island'')])),
        (lookup_url ''Utopie'', Inr (lookup_answer [doc_of (uri_of ''Utopie'')])),
        (lookup_url ''Ys'', Inr (lookup_answer [doc_of (uri_of ''Ys'')])),
        (lookup_url ''Babel'', Inr (lookup_answer [doc_of (uri_of ''Babel'')])),
        (lookup_url ''Erewhon'', Inr (lookup_answer [doc_of (uri_of ''Erewhon'')])),
        (lookup_url ''Eden'', Inr (lookup_answer [JObj [(''label'', JArr [JStr ''Eden''])]])),
        (lookup_url ''Limbes'', Inr (lookup_answer [JObj [(''resource'', JArr [])]])),
        (lookup_url ''Nemo'', Inr (lookup_answer [doc_of []])),
        (lookup_url ''Atlantide'', Inr (lookup_answer []))],
     sparql_service = service
       [(sparql_query (JStr (uri_of ''Paris'')), Inr (sparql_answer [lat_long ''48.75'' ''2.5''])),
        (sparql_query (JStr (uri_of ''Lyon'')), Inr (sparql_answer [lat_long ''45.75'' ''4.75''])),
        (sparql_query (JStr (uri_of ''Marseille'')), Inl HTTPError),
        (sparql_query (JStr (uri_of ''Null_Island'')),
           Inr (sparql_answer [lat_long ''0.0'' ''0.0''])),
        (sparql_query (JStr (uri_of ''Utopie'')), Inr (sparql_answer [])),
        (sparql_query (JStr (uri_of ''Ys'')),
           Inr (sparql_answer [JObj [(''lat'', term_of ''48.75'')]])),
        (sparql_query (JStr (uri_of ''Babel'')),
           Inr (sparql_answer [lat_long ''trente-deux'' ''44.5''])),
        (sparql_query (JStr (uri_of ''Erewhon'')),
           Inr (sparql_answer [lat_long ''nan'' ''2.5''])),
        (sparql_query (JStr []), Inr (sparql_answer [lat_long ''48.75'' ''2.5''])),
        (sparql_query JNull, Inr (sparql_answer []))],
     float_of_str = sample_float,
     argsort = stable_argsort\<rparr>"

section \<open>Properties of the cached functions\<close>

subsection \<open>One call of a cached function\<close>

lemma dbpedia_lookup_hit:
  "map_of (lookup_cache w) t = Some r \<Longrightarrow> dbpedia_lookup E t w = (Inr r, w)"
  by (simp add: dbpedia_lookup_def)

lemma dbpedia_lookup_miss:
  "map_of (lookup_cache w) t = None \<Longrightarrow>
   dbpedia_lookup E t w =
     (case lookup_value E t of
        Inl e \<Rightarrow> (Inl e, w\<lparr>requests := requests w @ [GET (lookup_url t)]\<rparr>)
      | Inr docs \<Rightarrow>
          (Inr docs, w\<lparr>requests := requests w @ [GET (lookup_url t)],
                        lookup_cache := (t, docs) # lookup_cache w\<rparr>))"
  by (simp add: dbpedia_lookup_def lookup_value_def Let_def split: sum.splits)

lemma dbpedia_top1_hit:
  "map_of (top1_cache w) t = Some u \<Longrightarrow> dbpedia_top1 E t w = (Inr u, w)"
  by (simp add: dbpedia_top1_def)

lemma dbpedia_top1_miss:
  "map_of (top1_cache w) t = None \<Longrightarrow>
   dbpedia_top1 E t w =
     (case dbpedia_lookup E t w of
        (Inl e, w1) \<Rightarrow> (Inl e, w1)
      | (Inr r, w1) \<Rightarrow>
          (case top1_of r of
             Inl e \<Rightarrow> (Inl e, w1)
           | Inr u \<Rightarrow> (Inr u, w1\<lparr>top1_cache := (t, u) # top1_cache w1\<rparr>)))"
  by (simp add: dbpedia_top1_def)

lemma geocode_unhashable: "\<not> hashable u \<Longrightarrow> geocode E u w = (Inl TypeError, w)"
  by (simp add: geocode_def)

lemma geocode_hit:
  "hashable u \<Longrightarrow> map_of (geocode_cache w) u = Some c \<Longrightarrow> geocode E u w = (Inr c, w)"
  by (simp add: geocode_def)

lemma geocode_miss:
  "hashable u \<Longrightarrow> map_of (geocode_cache w) u = None \<Longrightarrow>
   geocode E u w =
     (case geocode_value E u of
        Inl e \<Rightarrow> (Inl e, w\<lparr>requests := requests w @ [POST sparql_endpoint (sparql_query u)]\<rparr>)
      | Inr c \<Rightarrow>
          (Inr c, w\<lparr>requests := requests w @ [POST sparql_endpoint (sparql_query u)],
                     geocode_cache := (u, c) # geocode_cache w\<rparr>))"
  by (simp add: geocode_def geocode_value_def Let_def split: sum.splits)

subsection \<open>A returned value is stored\<close>

lemma dbpedia_lookup_stores:
  "dbpedia_lookup E t w = (Inr r, w1) \<Longrightarrow> map_of (lookup_cache w1) t = Some r"
  by (cases "map_of (lookup_cache w) t")
     (auto simp: dbpedia_lookup_miss dbpedia_lookup_hit split: sum.splits)

lemma dbpedia_top1_stores:
  "dbpedia_top1 E t w = (Inr u, w1) \<Longrightarrow> map_of (top1_cache w1) t = Some u"
  by (cases "map_of (top1_cache w) t")
     (auto simp: dbpedia_top1_miss dbpedia_top1_hit split: sum.splits prod.splits)

lemma geocode_stores:
  "geocode E u w = (Inr c, w1) \<Longrightarrow> hashable u \<and> map_of (geocode_cache w1) u = Some c"
  by (cases "hashable u"; cases "map_of (geocode_cache w) u")
     (auto simp: geocode_miss geocode_hit geocode_unhashable split: sum.splits)

subsection \<open>Calls only add to the caches\<close>

lemma extends_refl: "extends w w"
  by (simp add: extends_def)

lemma extends_trans: "extends w1 w2 \<Longrightarrow> extends w2 w3 \<Longrightarrow> extends w1 w3"
  by (simp add: extends_def)

lemma dbpedia_lookup_extends: "extends w (snd (dbpedia_lookup E t w))"
  by (cases "map_of (lookup_cache w) t")
     (auto simp: dbpedia_lookup_miss dbpedia_lookup_hit extends_def split: sum.splits)

lemma dbpedia_top1_extends: "extends w (snd (dbpedia_top1 E t w))"
proof (cases "map_of (top1_cache w) t")
  case None
  have "extends w (snd (dbpedia_lookup E t w))" by (rule dbpedia_lookup_extends)
  then show ?thesis using None
    by (auto simp: dbpedia_top1_miss extends_def split: sum.splits prod.splits)
next
  case (Some u)
  then show ?thesis by (simp add: dbpedia_top1_hit extends_refl)
qed

lemma geocode_extends: "extends w (snd (geocode E u w))"
  by (cases "hashable u"; cases "map_of (geocode_cache w) u")
     (auto simp: geocode_miss geocode_hit geocode_unhashable extends_def split: sum.splits)

lemma resolution_extends: "extends w (snd (resolution E t w))"
proof -
  have a: "extends w (snd (dbpedia_top1 E t w))" by (rule dbpedia_top1_extends)
  show ?thesis
  proof (cases "dbpedia_top1 E t w")
    case (Pair r w1)
    then show ?thesis using a geocode_extends [of w1 E]
      by (cases r) (auto simp: resolution_def intro: extends_trans)
  qed
qed

lemma fill_rows_extends: "extends w (snd (fill_rows E kvs w))"
proof (induction kvs arbitrary: w)
  case Nil
  show ?case by (simp add: extends_refl)
next
  case (Cons kv kvs)
  obtain k v where kv: "kv = (k, v)" by (cases kv)
  obtain r1 w1 where s1: "dbpedia_top1 E k w = (r1, w1)" by (cases "dbpedia_top1 E k w")
  obtain r2 w2 where s2: "dbpedia_top1 E k w1 = (r2, w2)" by (cases "dbpedia_top1 E k w1")
  have e1: "extends w w1" using dbpedia_top1_extends [of w E k] s1 by simp
  have e2: "extends w w2" using dbpedia_top1_extends [of w1 E k] s2 e1
    by (auto intro: extends_trans)
  show ?case
  proof (cases r1)
    case (Inl e)
    then show ?thesis using kv s1 e1 by simp
  next
    case r1: (Inr u)
    show ?thesis
    proof (cases r2)
      case (Inl e)
      then show ?thesis using kv s1 s2 r1 e2 by simp
    next
      case r2: (Inr u')
      obtain r3 w3 where s3: "geocode E u' w2 = (r3, w3)" by (cases "geocode E u' w2")
      have e3: "extends w w3" using geocode_extends [of w2 E u'] s3 e2
        by (auto intro: extends_trans)
      show ?thesis
      proof (cases r3)
        case (Inl e)
        then show ?thesis using kv s1 s2 s3 r1 r2 e3 by simp
      next
        case r3: (Inr c)
        have "extends w (snd (fill_rows E kvs w3))"
          using Cons.IH [of w3] e3 by (rule extends_trans [rotated])
        then show ?thesis using kv s1 s2 s3 r1 r2 r3
          by (auto split: prod.splits sum.splits)
      qed
    qed
  qed
qed

lemma count_table_extends: "extends w (snd (count_table E loc w))"
  using fill_rows_extends [of w E "Counter loc"]
  by (auto simp: count_table_def split: prod.splits sum.splits)

lemma resolve_all_extends: "extends w (snd (resolve_all E ts w))"
proof (induction ts arbitrary: w)
  case Nil
  show ?case by (simp add: extends_refl)
next
  case (Cons t ts)
  obtain r1 w1 where s1: "resolution E t w = (r1, w1)" by (cases "resolution E t w")
  have e1: "extends w w1" using resolution_extends [of w E t] s1 by simp
  have "extends w (snd (resolve_all E ts w1))"
    using e1 Cons.IH [of w1] by (rule extends_trans)
  then show ?case using s1 e1 by (auto split: prod.splits sum.splits)
qed

lemma fetch_and_map_extends: "extends w (snd (fetch_and_map E loc w))"
proof -
  obtain r1 w1 where s1: "resolve_all E loc w = (r1, w1)" by (cases "resolve_all E loc w")
  have e1: "extends w w1" using resolve_all_extends [of w E loc] s1 by simp
  have "extends w (snd (count_table E loc w1))"
    using e1 count_table_extends [of w1 E loc] by (rule extends_trans)
  then show ?thesis using s1 e1 by (auto simp: fetch_and_map_def split: prod.splits sum.splits)
qed

lemma after_call_extends: "extends w (after_call E w c)"
  by (cases c)
     (simp_all add: dbpedia_lookup_extends dbpedia_top1_extends geocode_extends
        resolution_extends count_table_extends fetch_and_map_extends)

lemma after_calls_extends: "extends w (after_calls E w cs)"
  unfolding after_calls_def
proof (induction cs arbitrary: w)
  case Nil
  show ?case by (simp add: extends_refl)
next
  case (Cons c cs)
  show ?case using after_call_extends [of w E c] Cons.IH [of "after_call E w c"]
    by (auto intro: extends_trans)
qed

lemma pair_fstI: "fst p = a \<Longrightarrow> p = (a, snd p)"
  by (cases p) simp

subsection \<open>Requests\<close>

lemma dbpedia_lookup_requests:
  "requests (snd (dbpedia_lookup E t w)) = requests w \<or>
   requests (snd (dbpedia_lookup E t w)) = requests w @ [GET (lookup_url t)]"
  by (cases "map_of (lookup_cache w) t")
     (auto simp: dbpedia_lookup_miss dbpedia_lookup_hit split: sum.splits)

lemma dbpedia_top1_requests:
  "requests (snd (dbpedia_top1 E t w)) = requests w \<or>
   requests (snd (dbpedia_top1 E t w)) = requests w @ [GET (lookup_url t)]"
proof (cases "map_of (top1_cache w) t")
  case None
  show ?thesis using None dbpedia_lookup_requests [of E t w]
    by (auto simp: dbpedia_top1_miss split: sum.splits prod.splits)
next
  case (Some u)
  then show ?thesis by (simp add: dbpedia_top1_hit)
qed

lemma geocode_requests:
  "requests (snd (geocode E u w)) = requests w \<or>
   requests (snd (geocode E u w)) = requests w @ [POST sparql_endpoint (sparql_query u)]"
  by (cases "hashable u"; cases "map_of (geocode_cache w) u")
     (auto simp: geocode_miss geocode_hit geocode_unhashable split: sum.splits)

lemma dbpedia_top1_posts: "posts (snd (dbpedia_top1 E t w)) = posts w"
  using dbpedia_top1_requests [of E t w] by (auto simp: posts_def)

section \<open>Properties of the counter and of the table\<close>

lemma map_of_bump:
  "map_of (bump k c) k' =
     (if k' = k then Some (case map_of c k of None \<Rightarrow> 1 | Some n \<Rightarrow> Suc n) else map_of c k')"
  by (induction c) auto

lemma keys_bump: "fst ` set (bump k c) = insert k (fst ` set c)"
proof (induction c)
  case Nil
  show ?case by simp
next
  case (Cons kv c)
  obtain k' n where kv: "kv = (k', n)" by (cases kv)
  show ?case using Cons.IH kv by (cases "k = k'") auto
qed

lemma distinct_bump: "distinct (map fst c) \<Longrightarrow> distinct (map fst (bump k c))"
proof (induction c)
  case Nil
  show ?case by simp
next
  case (Cons kv c)
  obtain k' n where kv: "kv = (k', n)" by (cases kv)
  show ?case
  proof (cases "k = k'")
    case True
    then show ?thesis using Cons.prems kv by simp
  next
    case False
    have "k' \<notin> fst ` set (bump k c)" using Cons.prems kv False by (simp add: keys_bump)
    then show ?thesis using Cons kv False by simp
  qed
qed

lemma foldl_bump:
  "map_of (foldl (\<lambda>c k. bump k c) c0 loc) k =
     (if k \<in> set loc then Some (cnt c0 k + count_list loc k) else map_of c0 k)"
proof (induction loc arbitrary: c0)
  case Nil
  show ?case by simp
next
  case (Cons t loc)
  show ?case
    by (simp add: Cons.IH map_of_bump cnt_def split: option.splits)
qed

lemma distinct_foldl_bump:
  "distinct (map fst c0) \<Longrightarrow> distinct (map fst (foldl (\<lambda>c k. bump k c) c0 loc))"
  by (induction loc arbitrary: c0) (simp_all add: distinct_bump)

lemma keys_foldl_bump:
  "fst ` set (foldl (\<lambda>c k. bump k c) c0 loc) = fst ` set c0 \<union> set loc"
  by (induction loc arbitrary: c0) (auto simp: keys_bump)

lemma map_of_Counter:
  "map_of (Counter loc) k = (if k \<in> set loc then Some (count_list loc k) else None)"
  by (simp add: Counter_def foldl_bump cnt_def)

lemma distinct_Counter: "distinct (map fst (Counter loc))"
  by (simp add: Counter_def distinct_foldl_bump)

lemma keys_Counter: "fst ` set (Counter loc) = set loc"
  by (simp add: Counter_def keys_foldl_bump)

lemma Counter_entry: "(k, n) \<in> set (Counter loc) \<Longrightarrow> k \<in> set loc \<and> n = count_list loc k"
proof -
  assume a: "(k, n) \<in> set (Counter loc)"
  then have "map_of (Counter loc) k = Some n" using distinct_Counter by simp
  then show ?thesis by (simp add: map_of_Counter split: if_splits)
qed

subsection \<open>The rows that are filled in\<close>

lemma fill_rows_keys:
  "fill_rows E kvs w = (Inr rows, w') \<Longrightarrow> map (\<lambda>r. (toponym r, occs r)) rows = kvs"
proof (induction kvs arbitrary: w rows)
  case Nil
  then show ?case by simp
next
  case (Cons kv kvs)
  obtain k v where kv: "kv = (k, v)" by (cases kv)
  from Cons.prems kv obtain u w1 u' w2 c w3 rows' where
    "fill_rows E kvs w3 = (Inr rows', w')"
    "rows = \<lparr>toponym = k, occs = v, db_pedia = u, coordinates = c\<rparr> # rows'"
    by (auto split: prod.splits sum.splits)
  then show ?case using Cons.IH kv by simp
qed

text \<open>The sort, for any \<open>argsort\<close> that keeps numpy's promise.\<close>

lemma argsort_in_range:
  assumes "argsort_sorts E" and "i \<in> set (argsort E xs)"
  shows "i < length xs"
proof -
  have "mset (argsort E xs) = mset [0..<length xs]" using assms(1) by (simp add: argsort_sorts_def)
  then have "set (argsort E xs) = set [0..<length xs]" by (rule mset_eq_setD)
  then show ?thesis using assms(2) by simp
qed

lemma mset_sort_values:
  assumes "argsort_sorts E"
  shows "mset (sort_values E rows) = mset rows"
proof -
  let ?a = "argsort E (rev (map occs rows))"
  let ?idx = "rev [0..<length rows]"
  have a: "mset ?a = mset [0..<length rows]"
    using assms by (simp add: argsort_sorts_def)
  have len: "length ?idx = length rows" by simp
  have "mset (map (\<lambda>i. ?idx ! i) ?a) = image_mset (\<lambda>i. ?idx ! i) (mset ?a)"
    by (simp only: mset_map)
  also have "\<dots> = image_mset (\<lambda>i. ?idx ! i) (mset [0..<length ?idx])"
    by (simp only: a len)
  also have "\<dots> = mset (map (\<lambda>i. ?idx ! i) [0..<length ?idx])"
    by (simp only: mset_map)
  also have "\<dots> = mset ?idx" by (simp only: map_nth)
  finally have i: "mset (rev (map (\<lambda>i. ?idx ! i) ?a)) = mset [0..<length rows]"
    by (simp only: mset_rev)
  have "mset (sort_values E rows) =
          image_mset (\<lambda>i. rows ! i) (mset (rev (map (\<lambda>i. ?idx ! i) ?a)))"
    unfolding sort_values_def Let_def by (simp only: mset_map)
  also have "\<dots> = mset (map (\<lambda>i. rows ! i) [0..<length rows])"
    by (simp only: i mset_map)
  also have "\<dots> = mset rows" by (simp only: map_nth)
  finally show ?thesis .
qed

lemma sorted_sort_values:
  assumes "argsort_sorts E"
  shows "sorted_wrt (\<lambda>a b. occs b \<le> occs a) (sort_values E rows)"
proof -
  let ?xs = "rev (map occs rows)"
  let ?a = "argsort E ?xs"
  let ?idx = "rev [0..<length rows]"
  have s: "sorted (map (\<lambda>i. ?xs ! i) ?a)" using assms by (simp add: argsort_sorts_def)
  have r: "occs (rows ! (?idx ! i)) = ?xs ! i" if "i \<in> set ?a" for i
  proof -
    have l: "i < length rows" using argsort_in_range [OF assms that] by simp
    then show ?thesis by (simp add: rev_nth)
  qed
  have "map occs (sort_values E rows) = rev (map (\<lambda>i. occs (rows ! (?idx ! i))) ?a)"
    unfolding sort_values_def Let_def by (simp add: rev_map comp_def)
  also have "\<dots> = rev (map (\<lambda>i. ?xs ! i) ?a)" using r by simp
  finally have "sorted (rev (map occs (sort_values E rows)))" using s by simp
  then have "sorted_wrt (\<lambda>a b. b \<le> a) (map occs (sort_values E rows))"
    by (simp add: sorted_wrt_rev)
  then show ?thesis by (simp add: sorted_wrt_map)
qed

lemma set_sort_values: "argsort_sorts E \<Longrightarrow> set (sort_values E rows) = set rows"
  using mset_sort_values [of E rows] by (metis set_mset_mset)

lemma distinct_sort_values:
  assumes "argsort_sorts E"
  shows "distinct (map toponym (sort_values E rows)) = distinct (map toponym rows)"
proof -
  have "image_mset toponym (mset (sort_values E rows)) = image_mset toponym (mset rows)"
    by (simp only: mset_sort_values [OF assms])
  then have "mset (map toponym (sort_values E rows)) = mset (map toponym rows)"
    by (simp only: mset_map)
  then show ?thesis by (rule mset_eq_imp_distinct_iff)
qed

lemma stable_argsort_sorts: "argsort_sorts (E\<lparr>argsort := stable_argsort\<rparr>)"
  by (simp add: argsort_sorts_def stable_argsort_def)

lemma reversing_argsort_sorts: "argsort_sorts (E\<lparr>argsort := reversing_argsort\<rparr>)"
  by (simp add: argsort_sorts_def reversing_argsort_def)

lemma sample_argsort_sorts: "argsort_sorts sample_env"
  by (simp add: argsort_sorts_def sample_env_def stable_argsort_def)

section \<open>Coherent caches and failures\<close>

lemma coherent_init: "coherent E init_world"
  by (simp add: coherent_def init_world_def)

lemma dbpedia_lookup_coherent:
  assumes "coherent E w"
  shows "fst (dbpedia_lookup E t w) = lookup_value E t \<and> coherent E (snd (dbpedia_lookup E t w))"
proof (cases "map_of (lookup_cache w) t")
  case None
  then show ?thesis using assms
    by (auto simp: dbpedia_lookup_miss coherent_def split: sum.splits)
next
  case (Some r)
  then show ?thesis using assms by (simp add: dbpedia_lookup_hit coherent_def)
qed

lemma dbpedia_top1_coherent:
  assumes "coherent E w"
  shows "fst (dbpedia_top1 E t w) = top1_value E t \<and> coherent E (snd (dbpedia_top1 E t w))"
proof (cases "map_of (top1_cache w) t")
  case None
  obtain r w1 where s: "dbpedia_lookup E t w = (r, w1)" by (cases "dbpedia_lookup E t w")
  have l: "r = lookup_value E t" "coherent E w1"
    using dbpedia_lookup_coherent [OF assms, of t] s by simp_all
  show ?thesis using None s l
    by (auto simp: dbpedia_top1_miss top1_value_def coherent_def split: sum.splits)
next
  case (Some u)
  then show ?thesis using assms by (simp add: dbpedia_top1_hit coherent_def)
qed

lemma geocode_coherent:
  assumes "coherent E w"
  shows "fst (geocode E u w) = geocode_value E u \<and> coherent E (snd (geocode E u w))"
proof (cases "hashable u")
  case False
  then show ?thesis using assms by (simp add: geocode_unhashable geocode_value_def)
next
  case True
  show ?thesis
  proof (cases "map_of (geocode_cache w) u")
    case None
    then show ?thesis using True assms
      by (auto simp: geocode_miss coherent_def split: sum.splits)
  next
    case (Some c)
    then have "geocode_value E u = Inr c" using assms unfolding coherent_def by blast
    then show ?thesis using Some True assms by (simp add: geocode_hit)
  qed
qed

lemma resolution_coherent:
  assumes "coherent E w"
  shows "coherent E (snd (resolution E t w))"
    and "fst (resolution E t w) =
           (case top1_value E t of
              Inl e \<Rightarrow> Inl e
            | Inr u \<Rightarrow> if \<not> truthy u then Inr (None, None) else geocode_value E u)"
proof -
  obtain r w1 where s: "dbpedia_top1 E t w = (r, w1)" by (cases "dbpedia_top1 E t w")
  have l: "r = top1_value E t" "coherent E w1"
    using dbpedia_top1_coherent [OF assms, of t] s by simp_all
  show "coherent E (snd (resolution E t w))"
    using s l geocode_coherent [OF l(2)] by (auto simp: resolution_def split: sum.splits)
  show "fst (resolution E t w) =
           (case top1_value E t of
              Inl e \<Rightarrow> Inl e
            | Inr u \<Rightarrow> if \<not> truthy u then Inr (None, None) else geocode_value E u)"
    using s l geocode_coherent [OF l(2)] by (auto simp: resolution_def split: sum.splits)
qed

text \<open>One round of the loop of \<open>count_table\<close> raises what the two functions raise.\<close>

lemma fill_rows_coherent:
  assumes "coherent E w"
  shows "coherent E (snd (fill_rows E kvs w))"
  using assms
proof (induction kvs arbitrary: w)
  case Nil
  then show ?case by simp
next
  case (Cons kv kvs)
  obtain k v where kv: "kv = (k, v)" by (cases kv)
  obtain r1 w1 where s1: "dbpedia_top1 E k w = (r1, w1)" by (cases "dbpedia_top1 E k w")
  have c1: "coherent E w1" using dbpedia_top1_coherent [OF Cons.prems, of k] s1 by simp
  obtain r2 w2 where s2: "dbpedia_top1 E k w1 = (r2, w2)" by (cases "dbpedia_top1 E k w1")
  have c2: "coherent E w2" using dbpedia_top1_coherent [OF c1, of k] s2 by simp
  have c3: "coherent E (snd (geocode E u w2))" for u
    using geocode_coherent [OF c2] by simp
  have c4: "coherent E (snd (fill_rows E kvs (snd (geocode E u w2))))" for u
    using Cons.IH [OF c3] .
  show ?case using kv s1 s2 c1 c2 c3 c4
    by (auto split: sum.splits prod.splits) (metis snd_conv)+
qed

lemma fill_rows_returns:
  assumes "coherent E w" and "fill_rows E kvs w = (Inr rows, w')" and "(k, v) \<in> set kvs"
  shows "\<exists>u c. top1_value E k = Inr u \<and> geocode_value E u = Inr c"
  using assms
proof (induction kvs arbitrary: w rows)
  case Nil
  then show ?case by simp
next
  case (Cons kv kvs)
  obtain k0 v0 where kv: "kv = (k0, v0)" by (cases kv)
  from Cons.prems(2) kv obtain u w1 u' w2 c w3 rows' where
    s1: "dbpedia_top1 E k0 w = (Inr u, w1)" and s2: "dbpedia_top1 E k0 w1 = (Inr u', w2)" and
    s3: "geocode E u' w2 = (Inr c, w3)" and s4: "fill_rows E kvs w3 = (Inr rows', w')"
    by (auto split: prod.splits sum.splits)
  have c1: "coherent E w1" "top1_value E k0 = Inr u"
    using dbpedia_top1_coherent [OF Cons.prems(1), of k0] s1 by simp_all
  have c2: "coherent E w2" "top1_value E k0 = Inr u'"
    using dbpedia_top1_coherent [OF c1(1), of k0] s2 by simp_all
  have c3: "coherent E w3" "geocode_value E u' = Inr c"
    using geocode_coherent [OF c2(1), of u'] s3 by simp_all
  show ?case
  proof (cases "(k, v) = kv")
    case True
    then show ?thesis using kv c2 c3 by auto
  next
    case False
    then have "(k, v) \<in> set kvs" using Cons.prems(3) by simp
    then show ?thesis using Cons.IH [OF c3(1) s4] by simp
  qed
qed

lemma count_table_coherent: "coherent E w \<Longrightarrow> coherent E (snd (count_table E loc w))"
  using fill_rows_coherent [of E w "Counter loc"]
  by (auto simp: count_table_def split: prod.splits sum.splits)

lemma resolve_all_coherent: "coherent E w \<Longrightarrow> coherent E (snd (resolve_all E ts w))"
proof (induction ts arbitrary: w)
  case Nil
  then show ?case by simp
next
  case (Cons t ts)
  have c1: "coherent E (snd (resolution E t w))" using Cons.prems by (rule resolution_coherent)
  have "coherent E (snd (resolve_all E ts (snd (resolution E t w))))" using c1 by (rule Cons.IH)
  then show ?case using c1 by (auto split: prod.splits sum.splits)
qed

lemma fetch_and_map_coherent: "coherent E w \<Longrightarrow> coherent E (snd (fetch_and_map E loc w))"
proof -
  assume c: "coherent E w"
  have c1: "coherent E (snd (resolve_all E loc w))" using c by (rule resolve_all_coherent)
  have "coherent E (snd (count_table E loc (snd (resolve_all E loc w))))"
    using c1 by (rule count_table_coherent)
  then show ?thesis using c1 by (auto simp: fetch_and_map_def split: prod.splits sum.splits)
qed

lemma after_call_coherent: "coherent E w \<Longrightarrow> coherent E (after_call E w c)"
  by (cases c)
     (simp_all add: dbpedia_lookup_coherent dbpedia_top1_coherent geocode_coherent
        resolution_coherent count_table_coherent fetch_and_map_coherent)

lemma after_calls_coherent: "coherent E w \<Longrightarrow> coherent E (after_calls E w cs)"
  unfolding after_calls_def
  by (induction cs arbitrary: w) (simp_all add: after_call_coherent)

lemma count_table_raises:
  assumes "coherent E w" and "t \<in> set loc"
    and "\<forall>u c. top1_value E t = Inr u \<longrightarrow> geocode_value E u \<noteq> Inr c"
  shows "\<exists>e w'. count_table E loc w = (Inl e, w')"
proof (cases "fill_rows E (Counter loc) w")
  case (Pair r w')
  show ?thesis
  proof (cases r)
    case (Inl e)
    then show ?thesis using Pair by (simp add: count_table_def)
  next
    case (Inr rows)
    obtain n where "(t, n) \<in> set (Counter loc)"
      using assms(2) keys_Counter [of loc] by force
    then have "\<exists>u c. top1_value E t = Inr u \<and> geocode_value E u = Inr c"
      using fill_rows_returns [OF assms(1)] Pair Inr by blast
    then show ?thesis using assms(3) by blast
  qed
qed

lemma fetch_and_map_raises:
  assumes "coherent E w" and "t \<in> set loc"
    and "\<forall>u c. top1_value E t = Inr u \<longrightarrow> geocode_value E u \<noteq> Inr c"
  shows "\<exists>e w'. fetch_and_map E loc w = (Inl e, w')"
proof (cases "resolve_all E loc w")
  case (Pair r w1)
  show ?thesis
  proof (cases r)
    case (Inl e)
    then show ?thesis using Pair by (simp add: fetch_and_map_def)
  next
    case (Inr cs)
    have "coherent E w1" using resolve_all_coherent [OF assms(1), of loc] Pair by simp
    then obtain e w' where "count_table E loc w1 = (Inl e, w')"
      using count_table_raises assms(2,3) by blast
    then show ?thesis using Pair Inr by (auto simp: fetch_and_map_def split: sum.splits)
  qed
qed

lemma count_table_reference_present:
  assumes "argsort_sorts E" and "count_table E loc w = (Inr df, w')" and "r \<in> set df"
  shows "db_pedia r \<noteq> JNull"
proof -
  from assms(2) obtain rows where df: "df = sort_values E (dropna rows)"
    by (auto simp: count_table_def split: prod.splits sum.splits)
  have "r \<in> set (dropna rows)" using assms(1,3) by (simp add: df set_sort_values)
  then show ?thesis by (simp add: dropna_def cells_def)
qed

lemma resolution_no_candidate:
  assumes "map_of (top1_cache w) t = None" and "dbpedia_lookup E t w = (Inr (JArr []), w1)"
  shows "resolution E t w = (Inr (None, None), w1\<lparr>top1_cache := (t, JNull) # top1_cache w1\<rparr>)"
  using assms by (simp add: resolution_def dbpedia_top1_miss top1_of_def)

section \<open>Calls that raise, and the part of the sort\<close>

subsection \<open>Nothing but computed values is stored\<close>

lemma grows_refl: "grows E w w"
  by (simp add: grows_def)

lemma grows_trans: "grows E w1 w2 \<Longrightarrow> grows E w2 w3 \<Longrightarrow> grows E w1 w3"
  unfolding grows_def by blast

lemma dbpedia_lookup_grows: "grows E w (snd (dbpedia_lookup E t w))"
  by (cases "map_of (lookup_cache w) t")
     (auto simp: dbpedia_lookup_miss dbpedia_lookup_hit grows_def split: sum.splits)

lemma dbpedia_top1_grows: "grows E w (snd (dbpedia_top1 E t w))"
proof (cases "map_of (top1_cache w) t")
  case None
  have "grows E w (snd (dbpedia_lookup E t w))" by (rule dbpedia_lookup_grows)
  then show ?thesis using None
    by (auto simp: dbpedia_top1_miss grows_def split: sum.splits prod.splits)
next
  case (Some u)
  then show ?thesis by (simp add: dbpedia_top1_hit grows_refl)
qed

lemma geocode_grows: "grows E w (snd (geocode E u w))"
  by (cases "hashable u"; cases "map_of (geocode_cache w) u")
     (auto simp: geocode_miss geocode_hit geocode_unhashable grows_def split: sum.splits)

lemma resolution_grows: "grows E w (snd (resolution E t w))"
proof (cases "dbpedia_top1 E t w")
  case (Pair r w1)
  have a: "grows E w w1" using dbpedia_top1_grows [of E w t] Pair by simp
  show ?thesis
  proof (cases r)
    case (Inl e)
    then show ?thesis using Pair a by (simp add: resolution_def)
  next
    case (Inr u)
    have "grows E w (snd (geocode E u w1))" using a geocode_grows by (rule grows_trans)
    then show ?thesis using Pair Inr a by (simp add: resolution_def)
  qed
qed

lemma fill_rows_grows: "grows E w (snd (fill_rows E kvs w))"
proof (induction kvs arbitrary: w)
  case Nil
  show ?case by (simp add: grows_refl)
next
  case (Cons kv kvs)
  obtain k v where kv: "kv = (k, v)" by (cases kv)
  obtain r1 w1 where s1: "dbpedia_top1 E k w = (r1, w1)" by (cases "dbpedia_top1 E k w")
  obtain r2 w2 where s2: "dbpedia_top1 E k w1 = (r2, w2)" by (cases "dbpedia_top1 E k w1")
  have e1: "grows E w w1" using dbpedia_top1_grows [of E w k] s1 by simp
  have e2: "grows E w w2" using dbpedia_top1_grows [of E w1 k] s2 e1
    by (auto intro: grows_trans)
  show ?case
  proof (cases r1)
    case (Inl e)
    then show ?thesis using kv s1 e1 by simp
  next
    case r1: (Inr u)
    show ?thesis
    proof (cases r2)
      case (Inl e)
      then show ?thesis using kv s1 s2 r1 e2 by simp
    next
      case r2: (Inr u')
      obtain r3 w3 where s3: "geocode E u' w2 = (r3, w3)" by (cases "geocode E u' w2")
      have e3: "grows E w w3" using geocode_grows [of E w2 u'] s3 e2
        by (auto intro: grows_trans)
      show ?thesis
      proof (cases r3)
        case (Inl e)
        then show ?thesis using kv s1 s2 s3 r1 r2 e3 by simp
      next
        case r3: (Inr c)
        have "grows E w (snd (fill_rows E kvs w3))"
          using e3 Cons.IH [of w3] by (rule grows_trans)
        then show ?thesis using kv s1 s2 s3 r1 r2 r3
          by (auto split: prod.splits sum.splits)
      qed
    qed
  qed
qed

lemma count_table_grows: "grows E w (snd (count_table E loc w))"
  using fill_rows_grows [of E w "Counter loc"]
  by (auto simp: count_table_def split: prod.splits sum.splits)

lemma resolve_all_grows: "grows E w (snd (resolve_all E ts w))"
proof (induction ts arbitrary: w)
  case Nil
  show ?case by (simp add: grows_refl)
next
  case (Cons t ts)
  obtain r1 w1 where s1: "resolution E t w = (r1, w1)" by (cases "resolution E t w")
  have e1: "grows E w w1" using resolution_grows [of E w t] s1 by simp
  have "grows E w (snd (resolve_all E ts w1))"
    using e1 Cons.IH [of w1] by (rule grows_trans)
  then show ?case using s1 e1 by (auto split: prod.splits sum.splits)
qed

lemma fetch_and_map_grows: "grows E w (snd (fetch_and_map E loc w))"
proof -
  obtain r1 w1 where s1: "resolve_all E loc w = (r1, w1)" by (cases "resolve_all E loc w")
  have e1: "grows E w w1" using resolve_all_grows [of E w loc] s1 by simp
  have "grows E w (snd (count_table E loc w1))"
    using e1 count_table_grows [of E w1 loc] by (rule grows_trans)
  then show ?thesis using s1 e1 by (auto simp: fetch_and_map_def split: prod.splits sum.splits)
qed

lemma after_call_grows: "grows E w (after_call E w c)"
  by (cases c)
     (simp_all add: dbpedia_lookup_grows dbpedia_top1_grows geocode_grows
        resolution_grows count_table_grows fetch_and_map_grows)

lemma after_calls_grows: "grows E w (after_calls E w cs)"
  unfolding after_calls_def
proof (induction cs arbitrary: w)
  case Nil
  show ?case by (simp add: grows_refl)
next
  case (Cons c cs)
  show ?case using after_call_grows [of E w c] Cons.IH [of "after_call E w c"]
    by (auto intro: grows_trans)
qed

text \<open>A call that raises has found nothing stored, has sent its request and stored nothing.\<close>

lemma dbpedia_lookup_raises:
  assumes "dbpedia_lookup E t w = (Inl e, w1)"
  shows "map_of (lookup_cache w) t = None \<and> lookup_value E t = Inl e \<and>
         w1 = w\<lparr>requests := requests w @ [GET (lookup_url t)]\<rparr>"
  using assms
  by (cases "map_of (lookup_cache w) t")
     (auto simp: dbpedia_lookup_miss dbpedia_lookup_hit split: sum.splits)

lemma geocode_raises:
  assumes "geocode E k w = (Inl e, w1)" and "hashable k"
  shows "map_of (geocode_cache w) k = None \<and> geocode_value E k = Inl e \<and>
         w1 = w\<lparr>requests := requests w @ [POST sparql_endpoint (sparql_query k)]\<rparr>"
  using assms
  by (cases "map_of (geocode_cache w) k")
     (auto simp: geocode_miss geocode_hit split: sum.splits)

lemma lookup_stays_uncached:
  assumes "lookup_value E t = Inl e" and "map_of (lookup_cache w) t = None" and "grows E w w'"
  shows "map_of (lookup_cache w') t = None"
proof (cases "map_of (lookup_cache w') t")
  case None
  then show ?thesis .
next
  case (Some v)
  then have "map_of (lookup_cache w) t = Some v \<or> lookup_value E t = Inr v"
    using assms(3) unfolding grows_def by blast
  then show ?thesis using assms(1,2) by simp
qed

lemma geocode_stays_uncached:
  assumes "geocode_value E k = Inl e" and "map_of (geocode_cache w) k = None" and "grows E w w'"
  shows "map_of (geocode_cache w') k = None"
proof (cases "map_of (geocode_cache w') k")
  case None
  then show ?thesis .
next
  case (Some v)
  then have "map_of (geocode_cache w) k = Some v \<or> geocode_value E k = Inr v"
    using assms(3) unfolding grows_def by blast
  then show ?thesis using assms(1,2) by simp
qed

lemma dbpedia_lookup_raises_again:
  assumes "dbpedia_lookup E t w = (Inl e, w1)"
  shows "dbpedia_lookup E t (after_calls E w1 cs) =
           (Inl e, (after_calls E w1 cs)
              \<lparr>requests := requests (after_calls E w1 cs) @ [GET (lookup_url t)]\<rparr>)"
proof -
  note r = dbpedia_lookup_raises [OF assms]
  have v: "lookup_value E t = Inl e" using r by simp
  have u: "map_of (lookup_cache w1) t = None" using r by simp
  have "map_of (lookup_cache (after_calls E w1 cs)) t = None"
    using v u after_calls_grows by (rule lookup_stays_uncached)
  then show ?thesis using r by (simp add: dbpedia_lookup_miss)
qed

lemma geocode_raises_again:
  assumes "geocode E k w = (Inl e, w1)" and "hashable k"
  shows "geocode E k (after_calls E w1 cs) =
           (Inl e, (after_calls E w1 cs)
              \<lparr>requests := requests (after_calls E w1 cs) @
                 [POST sparql_endpoint (sparql_query k)]\<rparr>)"
proof -
  note r = geocode_raises [OF assms]
  have v: "geocode_value E k = Inl e" using r by simp
  have u: "map_of (geocode_cache w1) k = None" using r by simp
  have "map_of (geocode_cache (after_calls E w1 cs)) k = None"
    using v u after_calls_grows by (rule geocode_stays_uncached)
  then show ?thesis using r assms(2) by (simp add: geocode_miss)
qed

subsection \<open>Only the sort reads argsort\<close>

lemma py_float_argsort: "py_float (E\<lparr>argsort := a\<rparr>) v = py_float E v"
  by (cases v) simp_all

lemma coords_of_argsort: "coords_of (E\<lparr>argsort := a\<rparr>) j = coords_of E j"
  by (simp add: coords_of_def lat_long_of_def float_or_None_def py_float_argsort
        cong: sum.case_cong if_cong)

lemma dbpedia_lookup_argsort: "dbpedia_lookup (E\<lparr>argsort := a\<rparr>) t w = dbpedia_lookup E t w"
  by (simp add: dbpedia_lookup_def Let_def cong: option.case_cong)

lemma dbpedia_top1_argsort: "dbpedia_top1 (E\<lparr>argsort := a\<rparr>) t w = dbpedia_top1 E t w"
  by (simp add: dbpedia_top1_def dbpedia_lookup_argsort cong: option.case_cong)

lemma geocode_argsort: "geocode (E\<lparr>argsort := a\<rparr>) u w = geocode E u w"
  by (simp add: geocode_def coords_of_argsort Let_def cong: option.case_cong sum.case_cong)

lemma fill_rows_argsort: "fill_rows (E\<lparr>argsort := a\<rparr>) kvs w = fill_rows E kvs w"
proof (induction kvs arbitrary: w)
  case Nil
  show ?case by simp
next
  case (Cons kv kvs)
  obtain k v where kv: "kv = (k, v)" by (cases kv)
  show ?case
    by (simp add: kv dbpedia_top1_argsort geocode_argsort Cons.IH
          cong: prod.case_cong sum.case_cong)
qed

text \<open>Rows whose counts differ from one another have one descending order only.\<close>

lemma descending_unique:
  assumes "mset xs = mset ys" and "distinct (map occs xs)"
    and "sorted_wrt (\<lambda>a b. occs b \<le> occs a) xs" and "sorted_wrt (\<lambda>a b. occs b \<le> occs a) ys"
  shows "xs = ys"
proof -
  have m: "mset (map occs xs) = mset (map occs ys)"
    using assms(1) by (metis mset_map)
  have dy: "distinct (map occs ys)" using m assms(2) by (metis mset_eq_imp_distinct_iff)
  have sx: "sorted (rev (map occs xs))" using assms(3) by (simp add: sorted_wrt_rev sorted_wrt_map)
  have sy: "sorted (rev (map occs ys))" using assms(4) by (simp add: sorted_wrt_rev sorted_wrt_map)
  have "set (rev (map occs xs)) = set (rev (map occs ys))"
    using m by (metis mset_eq_setD set_rev)
  then have "rev (map occs xs) = rev (map occs ys)"
    using sx sy assms(2) dy by (intro sorted_distinct_set_unique) simp_all
  then have e: "map occs xs = map occs ys" by simp
  have s: "set xs = set ys" using assms(1) by (rule mset_eq_setD)
  have "inj_on occs (set xs)" using assms(2) by (simp add: distinct_map)
  then have "inj_on occs (set xs \<union> set ys)" using s by simp
  then show ?thesis using e by (rule map_inj_on [rotated])
qed

lemma sort_values_independent:
  assumes "argsort_sorts E" and "argsort_sorts E'" and "distinct (map occs rows)"
  shows "sort_values E rows = sort_values E' rows"
proof (rule descending_unique)
  show "mset (sort_values E rows) = mset (sort_values E' rows)"
    by (simp only: mset_sort_values [OF assms(1)] mset_sort_values [OF assms(2)])
  have "mset (map occs (sort_values E rows)) = mset (map occs rows)"
    by (metis mset_sort_values [OF assms(1)] mset_map)
  then show "distinct (map occs (sort_values E rows))"
    using assms(3) by (metis mset_eq_imp_distinct_iff)
  show "sorted_wrt (\<lambda>a b. occs b \<le> occs a) (sort_values E rows)"
    using assms(1) by (rule sorted_sort_values)
  show "sorted_wrt (\<lambda>a b. occs b \<le> occs a) (sort_values E' rows)"
    using assms(2) by (rule sorted_sort_values)
qed

text \<open>A coordinate that is \<open>nan\<close> passes for valid, and the heat map refuses it.\<close>

lemma fetch_and_map_raises_on_nan:
  "fst (resolution sample_env ''Erewhon'' init_world) = Inr (Some NaN, Some (Fin (5 / 2))) \<and>
   fst (fetch_and_map sample_env [''Erewhon''] init_world) = Inl ValueError"
  by code_simp

section \<open>Where truthiness and missing values go wrong, in general\<close>

text \<open>
  The evaluations of the next section are instances of these facts, which hold for every
  answer of the services: a value that parses to zero becomes \<open>None\<close>, a zero component
  never passes the filter of valid coordinates, a missing field makes \<open>float\<close> raise, only
  the reference decides whether \<open>dropna\<close> keeps a row, and \<open>count_table\<close> sends the query
  for the reference \<open>None\<close>.
\<close>

lemma binding_value_missing:
  "map_of kvs name = None \<Longrightarrow> binding_value (JObj kvs) name = Inr JNull"
  by (simp add: binding_value_def)

lemma lat_long_of_zero:
  assumes "binding_value b ''lat'' = Inr (JStr a)" and "binding_value b ''long'' = Inr (JStr c)"
    and "float_of_str E a = Some (Fin 0)" and "float_of_str E c = Some (Fin 0)"
  shows "lat_long_of E b = Inr (None, None)"
  using assms by (simp add: lat_long_of_def float_or_None_def or_None_def float_truthy_def)

lemma coordonnees_valides_drops_zero:
  "(Some (Fin 0), long) \<notin> set (coordonnees_valides cs)"
  "(lat, Some (Fin 0)) \<notin> set (coordonnees_valides cs)"
  by (simp_all add: coordonnees_valides_def component_truthy_def float_truthy_def)

lemma lat_long_of_missing_lat:
  assumes "binding_value b ''lat'' = Inr JNull" and "binding_value b ''long'' = Inr v"
  shows "lat_long_of E b = Inl TypeError"
  using assms by (simp add: lat_long_of_def float_or_None_def)

lemma lat_long_of_missing_long:
  assumes "binding_value b ''lat'' = Inr (JStr a)" and "float_of_str E a = Some x"
    and "binding_value b ''long'' = Inr JNull"
  shows "lat_long_of E b = Inl TypeError"
  using assms by (simp add: lat_long_of_def float_or_None_def)

lemma dropna_keeps:
  "r \<in> set (dropna rows) \<longleftrightarrow> r \<in> set rows \<and> db_pedia r \<noteq> JNull"
  by (auto simp: dropna_def cells_def)

lemma count_table_geocodes_None:
  assumes "dbpedia_top1 E t w = (Inr JNull, w1)" and "map_of (geocode_cache w1) JNull = None"
  shows "requests (snd (count_table E [t] w)) =
           requests w1 @ [POST sparql_endpoint (sparql_query JNull)]"
proof -
  have hit: "dbpedia_top1 E t w1 = (Inr JNull, w1)"
    using dbpedia_top1_stores [OF assms(1)] by (rule dbpedia_top1_hit)
  have c: "Counter [t] = [(t, 1)]" by (simp add: Counter_def)
  have g: "requests (snd (geocode E JNull w1)) =
             requests w1 @ [POST sparql_endpoint (sparql_query JNull)]"
    using assms(2) by (simp add: geocode_miss split: sum.splits)
  show ?thesis
    using assms(1) hit g
    by (cases "geocode E JNull w1")
       (auto simp: count_table_def c split: sum.splits)
qed

section \<open>The claims\<close>

subsection \<open>C1: a coordinate of zero\<close>

text \<open>
  Claim C1 asks that a latitude and a longitude that parse to \<open>0.0\<close> come back from
  \<open>geocode\<close> as the coordinate \<open>(0.0, 0.0)\<close> and stay in the list of valid coordinates.
  The code does neither. \<open>float(lat) or None\<close> turns a parsed \<open>0.0\<close> into \<open>None\<close>, so
  \<open>geocode\<close> and \<open>resolution\<close> return \<open>(None, None)\<close> for the island at zero, and the
  test \<open>if lat and long\<close> of \<open>fetch_and_map\<close> would drop \<open>(0.0, 0.0)\<close> even if it
  arrived: the list of valid coordinates is empty.
\<close>

theorem zero_coordinate_becomes_absent:
  "float_of_str sample_env ''0.0'' = Some (Fin 0) \<and>
   fst (geocode sample_env (JStr (uri_of ''Null_Island'')) init_world) = Inr (None, None) \<and>
   fst (resolution sample_env ''Null Island'' init_world) = Inr (None, None) \<and>
   map_sum id fst (fst (fetch_and_map sample_env [''Null Island''] init_world)) = Inr [] \<and>
   coordonnees_valides [(Some (Fin 0), Some (Fin 0))] = []"
  by code_simp

subsection \<open>C2: a failing request in a batch\<close>

text \<open>
  Claim C2, as amended. Nothing in the module catches an exception. When the batch holds a
  toponym whose lookup request fails, or whose top reference is known and whose SPARQL request
  fails, then in every state the process can have reached \<open>count_table\<close> and
  \<open>fetch_and_map\<close> raise: the batch yields neither a table nor a list of coordinates, for
  the toponyms that resolve no more than for the one that fails.
\<close>

theorem transport_failure_aborts_the_batch:
  assumes "t \<in> set loc"
    and "lookup_service E (lookup_url t) = Inl e \<or>
         (\<exists>body r u. lookup_service E (lookup_url t) = Inr body \<and> docs_of body = Inr r \<and>
            top1_of r = Inr u \<and> sparql_service E (sparql_query u) = Inl e)"
  shows "(\<exists>e' w'. count_table E loc (after_calls E init_world cs) = (Inl e', w')) \<and>
         (\<exists>e' w'. fetch_and_map E loc (after_calls E init_world cs) = (Inl e', w'))"
proof -
  have c: "coherent E (after_calls E init_world cs)"
    using coherent_init by (rule after_calls_coherent)
  have f: "\<forall>u c. top1_value E t = Inr u \<longrightarrow> geocode_value E u \<noteq> Inr c"
    using assms(2)
    by (auto simp: top1_value_def lookup_value_def geocode_value_def split: sum.splits)
  show ?thesis
    using count_table_raises [OF c assms(1) f] fetch_and_map_raises [OF c assms(1) f] by simp
qed

text \<open>
  The theorem at the batch Paris, Marseille, where the SPARQL request for Marseille fails.
\<close>

theorem transport_failure_aborts_the_batch_witness:
  "''Marseille'' \<in> set [''Paris'', ''Marseille''] \<and>
   sparql_service sample_env (sparql_query (JStr (uri_of ''Marseille''))) = Inl HTTPError \<and>
   (\<exists>e' w'. count_table sample_env [''Paris'', ''Marseille'']
               (after_calls sample_env init_world [Resolution ''Lyon'']) = (Inl e', w')) \<and>
   (\<exists>e' w'. fetch_and_map sample_env [''Paris'', ''Marseille'']
               (after_calls sample_env init_world [Resolution ''Lyon'']) = (Inl e', w'))"
proof -
  have m: "''Marseille'' \<in> set [''Paris'', ''Marseille'']" by simp
  have s: "sparql_service sample_env (sparql_query (JStr (uri_of ''Marseille''))) = Inl HTTPError"
    by code_simp
  have "lookup_service sample_env (lookup_url ''Marseille'') =
          Inr (lookup_answer [doc_of (uri_of ''Marseille'')]) \<and>
        docs_of (lookup_answer [doc_of (uri_of ''Marseille'')]) =
          Inr (JArr [doc_of (uri_of ''Marseille'')]) \<and>
        top1_of (JArr [doc_of (uri_of ''Marseille'')]) = Inr (JStr (uri_of ''Marseille''))"
    by code_simp
  with s have h: "lookup_service sample_env (lookup_url ''Marseille'') = Inl HTTPError \<or>
      (\<exists>body r u. lookup_service sample_env (lookup_url ''Marseille'') = Inr body \<and>
          docs_of body = Inr r \<and> top1_of r = Inr u \<and>
          sparql_service sample_env (sparql_query u) = Inl HTTPError)"
    by blast
  show ?thesis using transport_failure_aborts_the_batch [OF m h] m s by blast
qed

text \<open>
  Claim C2 as stated fails there: Paris resolves, the geocoding of Marseille raises
  \<open>HTTPError\<close>, and both \<open>count_table\<close> and \<open>fetch_and_map\<close> raise it instead of
  returning the row and the coordinate of Paris.
\<close>

theorem one_failure_fails_the_batch:
  "fst (resolution sample_env ''Paris'' init_world) =
     Inr (Some (Fin (195 / 4)), Some (Fin (5 / 2))) \<and>
   fst (geocode sample_env (JStr (uri_of ''Marseille'')) init_world) = Inl HTTPError \<and>
   fst (count_table sample_env [''Paris'', ''Marseille''] init_world) = Inl HTTPError \<and>
   fst (fetch_and_map sample_env [''Paris'', ''Marseille''] init_world) = Inl HTTPError"
  by code_simp

subsection \<open>C3: the rows of the table\<close>

text \<open>
  Claim C3 asks that every row of the table has a reference and a coordinate. The first half
  holds (\<open>count_table_reference_present\<close>); the second does not: the coordinate cell holds
  the tuple \<open>(None, None)\<close>, which \<open>dropna\<close> does not count as missing, so the row of an
  entity without coordinates stays in the table. It stays whichever way \<open>argsort\<close> orders
  the two rows of the batch Paris, Utopie, whose counts are equal, and it stays when the
  counts differ.
\<close>

theorem row_without_coordinate_is_kept:
  "fst (geocode sample_env (JStr (uri_of ''Utopie'')) init_world) = Inr (None, None) \<and>
   fst (count_table sample_env [''Paris'', ''Utopie''] init_world) =
     Inr [\<lparr>toponym = ''Paris'', occs = 1, db_pedia = JStr (uri_of ''Paris''),
            coordinates = (Some (Fin (195 / 4)), Some (Fin (5 / 2)))\<rparr>,
          \<lparr>toponym = ''Utopie'', occs = 1, db_pedia = JStr (uri_of ''Utopie''),
            coordinates = (None, None)\<rparr>] \<and>
   fst (count_table (sample_env\<lparr>argsort := reversing_argsort\<rparr>) [''Paris'', ''Utopie'']
          init_world) =
     Inr [\<lparr>toponym = ''Utopie'', occs = 1, db_pedia = JStr (uri_of ''Utopie''),
            coordinates = (None, None)\<rparr>,
          \<lparr>toponym = ''Paris'', occs = 1, db_pedia = JStr (uri_of ''Paris''),
            coordinates = (Some (Fin (195 / 4)), Some (Fin (5 / 2)))\<rparr>] \<and>
   fst (count_table sample_env [''Paris'', ''Paris'', ''Utopie''] init_world) =
     Inr [\<lparr>toponym = ''Paris'', occs = 2, db_pedia = JStr (uri_of ''Paris''),
            coordinates = (Some (Fin (195 / 4)), Some (Fin (5 / 2)))\<rparr>,
          \<lparr>toponym = ''Utopie'', occs = 1, db_pedia = JStr (uri_of ''Utopie''),
            coordinates = (None, None)\<rparr>]"
  by code_simp

subsection \<open>C4: a toponym without candidates\<close>

text \<open>
  Claim C4 on the batch Atlantide, for which the search finds nothing. \<open>resolution\<close>
  returns the absent pair and sends nothing to the SPARQL endpoint, and both outputs are
  empty when that endpoint answers. But \<open>count_table\<close> calls
  \<open>geocode(dbpedia_top1(k))\<close> without the test that \<open>resolution\<close> makes: it geocodes the
  absent reference, a query for \<open><None>\<close> goes out, and when that request fails the call
  raises instead of returning the empty table.
\<close>

theorem count_table_geocodes_an_absent_reference:
  "fst (dbpedia_lookup sample_env ''Atlantide'' init_world) = Inr (JArr []) \<and>
   fst (resolution sample_env ''Atlantide'' init_world) = Inr (None, None) \<and>
   posts (snd (resolution sample_env ''Atlantide'' init_world)) = [] \<and>
   fst (fetch_and_map sample_env [''Atlantide''] init_world) = Inr ([], []) \<and>
   posts (snd (count_table sample_env [''Atlantide''] init_world)) =
     [POST sparql_endpoint (sparql_query JNull)] \<and>
   posts (snd (fetch_and_map sample_env [''Atlantide''] init_world)) =
     [POST sparql_endpoint (sparql_query JNull)] \<and>
   fst (count_table (sample_env\<lparr>sparql_service := \<lambda>q. Inl HTTPError\<rparr>) [''Atlantide'']
          init_world) = Inl HTTPError"
  by code_simp

subsection \<open>C5: what geocode returns\<close>

text \<open>
  Claim C5 asks for the absent pair, without raising, whenever the first binding lacks a
  latitude or a longitude. \<open>geocode\<close> returns the parsed values for Paris and the absent
  pair when there is no binding, but for a first binding without \<open>long\<close> the value read
  is \<open>None\<close> and \<open>float(None)\<close> raises \<open>TypeError\<close>.
\<close>

theorem geocode_raises_on_missing_field:
  "fst (geocode sample_env (JStr (uri_of ''Paris'')) init_world) =
     Inr (Some (Fin (195 / 4)), Some (Fin (5 / 2))) \<and>
   fst (geocode sample_env (JStr (uri_of ''Utopie'')) init_world) = Inr (None, None) \<and>
   sparql_service sample_env (sparql_query (JStr (uri_of ''Ys''))) =
     Inr (sparql_answer [JObj [(''lat'', term_of ''48.75'')]]) \<and>
   fst (geocode sample_env (JStr (uri_of ''Ys'')) init_world) = Inl TypeError"
  by code_simp

subsection \<open>C6: resolution\<close>

text \<open>
  Claim C6, as amended. \<open>resolution\<close> calls \<open>dbpedia_top1\<close> first and raises what it
  raises. When the reference is \<open>None\<close> or empty (so that \<open>not uri\<close> holds) it returns the
  absent pair in the state \<open>dbpedia_top1\<close> has left, with no request sent to the SPARQL
  endpoint; otherwise it returns exactly what \<open>geocode\<close> returns for that reference. The
  reference is read from the first document alone, whatever follows it.
\<close>

theorem resolution_is_top1_then_geocode:
  assumes "dbpedia_top1 E t w = (r, w1)"
  shows "(\<forall>e. r = Inl e \<longrightarrow> resolution E t w = (Inl e, w1)) \<and>
         (\<forall>u. r = Inr u \<and> \<not> truthy u \<longrightarrow>
            resolution E t w = (Inr (None, None), w1) \<and> posts w1 = posts w) \<and>
         (\<forall>u. r = Inr u \<and> truthy u \<longrightarrow> resolution E t w = geocode E u w1) \<and>
         top1_of (JArr (d # ds)) = top1_of (JArr [d])"
proof -
  have p: "posts w1 = posts w" using dbpedia_top1_posts [of E t w] assms by simp
  show ?thesis using assms p by (simp add: resolution_def top1_of_def)
qed

text \<open>
  The theorem at Brest (the lookup fails), Atlantide (no candidate) and Paris.
\<close>

theorem resolution_is_top1_then_geocode_witness:
  "resolution sample_env ''Brest'' init_world =
     (Inl ConnectionError, snd (dbpedia_top1 sample_env ''Brest'' init_world)) \<and>
   resolution sample_env ''Atlantide'' init_world =
     (Inr (None, None), snd (dbpedia_top1 sample_env ''Atlantide'' init_world)) \<and>
   posts (snd (dbpedia_top1 sample_env ''Atlantide'' init_world)) = posts init_world \<and>
   resolution sample_env ''Paris'' init_world =
     geocode sample_env (JStr (uri_of ''Paris'')) (snd (dbpedia_top1 sample_env ''Paris'' init_world))"
proof -
  have a: "dbpedia_top1 sample_env ''Brest'' init_world =
             (Inl ConnectionError, snd (dbpedia_top1 sample_env ''Brest'' init_world))"
    by (rule pair_fstI) code_simp
  have b: "dbpedia_top1 sample_env ''Atlantide'' init_world =
             (Inr JNull, snd (dbpedia_top1 sample_env ''Atlantide'' init_world))"
    by (rule pair_fstI) code_simp
  have c: "dbpedia_top1 sample_env ''Paris'' init_world =
             (Inr (JStr (uri_of ''Paris'')), snd (dbpedia_top1 sample_env ''Paris'' init_world))"
    by (rule pair_fstI) code_simp
  have t: "truthy (JStr (uri_of ''Paris''))" by code_simp
  show ?thesis
    using resolution_is_top1_then_geocode [OF a] resolution_is_top1_then_geocode [OF b]
      resolution_is_top1_then_geocode [OF c] t
    by simp
qed

text \<open>
  Claim C6 as stated fails when the top reference is the empty string: it is not absent,
  geocoding it gives a coordinate, and \<open>resolution\<close> returns the absent pair.
\<close>

theorem resolution_skips_empty_reference:
  "fst (dbpedia_top1 sample_env ''Nemo'' init_world) = Inr (JStr []) \<and>
   fst (resolution sample_env ''Nemo'' init_world) = Inr (None, None) \<and>
   fst (geocode sample_env (JStr []) (snd (dbpedia_top1 sample_env ''Nemo'' init_world))) =
     Inr (Some (Fin (195 / 4)), Some (Fin (5 / 2)))"
  by code_simp

subsection \<open>C7: the order of the table\<close>

text \<open>
  Claim C7. For any \<open>argsort\<close> that keeps numpy's promise, whenever \<open>count_table\<close>
  returns, the rows of the table are in descending order of their counts. The table holds
  exactly the rows that the loop has filled in and \<open>dropna\<close> has kept, one for each distinct
  toponym of the input, each once; the count of a row is the number of occurrences of its
  toponym. The table is a function of the input, of the state and of the answers of the
  services; when the counts of its rows differ from one another it is the same table whatever
  \<open>argsort\<close> does with equal counts, and rows of equal count come in the order \<open>argsort\<close>
  gives them.
\<close>

theorem count_table_sorted_by_count:
  assumes "argsort_sorts E" and "count_table E loc w = (Inr df, w')"
  shows "sorted_wrt (\<lambda>a b. occs b \<le> occs a) df \<and>
         (\<exists>rows. fill_rows E (Counter loc) w = (Inr rows, w') \<and>
                 map (\<lambda>r. (toponym r, occs r)) rows = Counter loc \<and>
                 mset df = mset (dropna rows)) \<and>
         (\<forall>r \<in> set df. toponym r \<in> set loc \<and> occs r = count_list loc (toponym r)) \<and>
         distinct (map toponym df) \<and>
         (\<forall>a. argsort_sorts (E\<lparr>argsort := a\<rparr>) \<and> distinct (map occs df) \<longrightarrow>
              count_table (E\<lparr>argsort := a\<rparr>) loc w = (Inr df, w'))"
proof -
  from assms(2) obtain rows where
    f: "fill_rows E (Counter loc) w = (Inr rows, w')" and df: "df = sort_values E (dropna rows)"
    by (auto simp: count_table_def split: prod.splits sum.splits)
  have keys: "map (\<lambda>r. (toponym r, occs r)) rows = Counter loc"
    using f by (rule fill_rows_keys)
  have m: "mset df = mset (dropna rows)"
    unfolding df using assms(1) by (rule mset_sort_values)
  have a: "sorted_wrt (\<lambda>a b. occs b \<le> occs a) df"
    unfolding df using assms(1) by (rule sorted_sort_values)
  have b: "toponym r \<in> set loc \<and> occs r = count_list loc (toponym r)" if "r \<in> set df" for r
  proof -
    have "r \<in> set rows" using that assms(1) by (simp add: df set_sort_values dropna_def)
    then have "(toponym r, occs r) \<in> set (map (\<lambda>r. (toponym r, occs r)) rows)" by force
    then have "(toponym r, occs r) \<in> set (Counter loc)" by (simp only: keys)
    then show ?thesis by (rule Counter_entry)
  qed
  have "map toponym rows = map fst (Counter loc)"
    using keys by (metis (no_types, lifting) map_map o_def fst_conv map_eq_conv)
  then have "distinct (map toponym rows)" by (simp add: distinct_Counter)
  then have c: "distinct (map toponym df)"
    using assms(1) by (simp add: df distinct_sort_values dropna_def distinct_map_filter)
  have d: "count_table (E\<lparr>argsort := a\<rparr>) loc w = (Inr df, w')"
    if "argsort_sorts (E\<lparr>argsort := a\<rparr>)" and "distinct (map occs df)" for a
  proof -
    have "mset (map occs df) = mset (map occs (dropna rows))" using m by (metis mset_map)
    then have "distinct (map occs (dropna rows))"
      using that(2) by (metis mset_eq_imp_distinct_iff)
    then have "sort_values (E\<lparr>argsort := a\<rparr>) (dropna rows) = df"
      unfolding df using that(1) assms(1) by (rule sort_values_independent [rotated 2])
    then show ?thesis using f by (simp add: count_table_def fill_rows_argsort)
  qed
  show ?thesis using a b c d f keys m by blast
qed

text \<open>
  The theorem at the occurrences Lyon, Paris, Paris, where the sort has to move Paris in front
  of Lyon, with the table of the occurrences Paris, Paris, Lyon, Paris, Lyon beside it:
  Paris with 3, then Lyon with 2.
\<close>

theorem count_table_sorted_by_count_witness:
  "argsort_sorts sample_env \<and>
   fst (count_table sample_env [''Paris'', ''Paris'', ''Lyon'', ''Paris'', ''Lyon''] init_world) =
     Inr [\<lparr>toponym = ''Paris'', occs = 3, db_pedia = JStr (uri_of ''Paris''),
            coordinates = (Some (Fin (195 / 4)), Some (Fin (5 / 2)))\<rparr>,
          \<lparr>toponym = ''Lyon'', occs = 2, db_pedia = JStr (uri_of ''Lyon''),
            coordinates = (Some (Fin (183 / 4)), Some (Fin (19 / 4)))\<rparr>] \<and>
   fst (count_table sample_env [''Lyon'', ''Paris'', ''Paris''] init_world) =
     Inr [\<lparr>toponym = ''Paris'', occs = 2, db_pedia = JStr (uri_of ''Paris''),
            coordinates = (Some (Fin (195 / 4)), Some (Fin (5 / 2)))\<rparr>,
          \<lparr>toponym = ''Lyon'', occs = 1, db_pedia = JStr (uri_of ''Lyon''),
            coordinates = (Some (Fin (183 / 4)), Some (Fin (19 / 4)))\<rparr>] \<and>
   sorted_wrt (\<lambda>a b. occs b \<le> occs a)
     [\<lparr>toponym = ''Paris'', occs = 2, db_pedia = JStr (uri_of ''Paris''),
        coordinates = (Some (Fin (195 / 4)), Some (Fin (5 / 2)))\<rparr>,
      \<lparr>toponym = ''Lyon'', occs = 1, db_pedia = JStr (uri_of ''Lyon''),
        coordinates = (Some (Fin (183 / 4)), Some (Fin (19 / 4)))\<rparr>] \<and>
   (\<exists>rows. map (\<lambda>r. (toponym r, occs r)) rows = [(''Lyon'', 1), (''Paris'', 2)] \<and>
      mset [\<lparr>toponym = ''Paris'', occs = 2, db_pedia = JStr (uri_of ''Paris''),
               coordinates = (Some (Fin (195 / 4)), Some (Fin (5 / 2)))\<rparr>,
             \<lparr>toponym = ''Lyon'', occs = 1, db_pedia = JStr (uri_of ''Lyon''),
               coordinates = (Some (Fin (183 / 4)), Some (Fin (19 / 4)))\<rparr>] =
      mset (dropna rows)) \<and>
   fst (count_table (sample_env\<lparr>argsort := reversing_argsort\<rparr>) [''Lyon'', ''Paris'', ''Paris'']
          init_world) =
     Inr [\<lparr>toponym = ''Paris'', occs = 2, db_pedia = JStr (uri_of ''Paris''),
            coordinates = (Some (Fin (195 / 4)), Some (Fin (5 / 2)))\<rparr>,
          \<lparr>toponym = ''Lyon'', occs = 1, db_pedia = JStr (uri_of ''Lyon''),
            coordinates = (Some (Fin (183 / 4)), Some (Fin (19 / 4)))\<rparr>]"
proof -
  let ?P = "\<lparr>toponym = ''Paris'', occs = 2, db_pedia = JStr (uri_of ''Paris''),
              coordinates = (Some (Fin (195 / 4)), Some (Fin (5 / 2)))\<rparr>"
  let ?L = "\<lparr>toponym = ''Lyon'', occs = 1, db_pedia = JStr (uri_of ''Lyon''),
              coordinates = (Some (Fin (183 / 4)), Some (Fin (19 / 4)))\<rparr>"
  have s: "argsort_sorts sample_env" by (rule sample_argsort_sorts)
  have s': "argsort_sorts (sample_env\<lparr>argsort := reversing_argsort\<rparr>)"
    by (rule reversing_argsort_sorts)
  have x: "fst (count_table sample_env [''Paris'', ''Paris'', ''Lyon'', ''Paris'', ''Lyon'']
                  init_world) =
     Inr [\<lparr>toponym = ''Paris'', occs = 3, db_pedia = JStr (uri_of ''Paris''),
            coordinates = (Some (Fin (195 / 4)), Some (Fin (5 / 2)))\<rparr>,
          \<lparr>toponym = ''Lyon'', occs = 2, db_pedia = JStr (uri_of ''Lyon''),
            coordinates = (Some (Fin (183 / 4)), Some (Fin (19 / 4)))\<rparr>]"
    by code_simp
  have e: "fst (count_table sample_env [''Lyon'', ''Paris'', ''Paris''] init_world) =
             Inr [?P, ?L]"
    by code_simp
  have c: "Counter [''Lyon'', ''Paris'', ''Paris''] = [(''Lyon'', 1), (''Paris'', 2)]"
    by code_simp
  have d: "distinct (map occs [?P, ?L])" by simp
  note t = count_table_sorted_by_count [OF s pair_fstI [OF e]]
  have t1: "sorted_wrt (\<lambda>a b. occs b \<le> occs a) [?P, ?L]" using t by (rule conjunct1)
  from t obtain rows where
    r1: "map (\<lambda>r. (toponym r, occs r)) rows = Counter [''Lyon'', ''Paris'', ''Paris'']" and
    r2: "mset [?P, ?L] = mset (dropna rows)"
    by blast
  have r3: "map (\<lambda>r. (toponym r, occs r)) rows = [(''Lyon'', 1), (''Paris'', 2)]"
    using r1 by (simp only: c)
  have t2: "\<exists>rows. map (\<lambda>r. (toponym r, occs r)) rows = [(''Lyon'', 1), (''Paris'', 2)] \<and>
              mset [?P, ?L] = mset (dropna rows)"
    by (rule exI [of _ rows]) (rule conjI [OF r3 r2])
  have "count_table (sample_env\<lparr>argsort := reversing_argsort\<rparr>) [''Lyon'', ''Paris'', ''Paris'']
          init_world =
        (Inr [?P, ?L], snd (count_table sample_env [''Lyon'', ''Paris'', ''Paris''] init_world))"
    using t s' d by blast
  then have t3: "fst (count_table (sample_env\<lparr>argsort := reversing_argsort\<rparr>)
                        [''Lyon'', ''Paris'', ''Paris''] init_world) = Inr [?P, ?L]"
    by simp
  show ?thesis using s x e t1 t2 t3 by blast
qed

subsection \<open>C8: one request for a key\<close>

text \<open>
  Claim C8, as amended. When a call of \<open>dbpedia_lookup\<close>, \<open>dbpedia_top1\<close> or
  \<open>geocode\<close> has returned a value, it has sent at most one request, and after any further
  calls of the module's functions the same call returns the same value and leaves the state
  as it is: no request is sent. When a call of \<open>dbpedia_lookup\<close>, or of \<open>geocode\<close> on a
  key that can be hashed, has raised, it has sent its request and changed nothing else, and
  after any further calls of the module's functions the same call sends the request again and
  raises again.
\<close>

theorem returned_value_is_served_from_the_cache:
  "(dbpedia_lookup E t w = (Inr r, w1) \<longrightarrow>
      (requests w1 = requests w \<or> requests w1 = requests w @ [GET (lookup_url t)]) \<and>
      dbpedia_lookup E t (after_calls E w1 cs) = (Inr r, after_calls E w1 cs)) \<and>
   (dbpedia_top1 E t w = (Inr u, w1) \<longrightarrow>
      (requests w1 = requests w \<or> requests w1 = requests w @ [GET (lookup_url t)]) \<and>
      dbpedia_top1 E t (after_calls E w1 cs) = (Inr u, after_calls E w1 cs)) \<and>
   (geocode E k w = (Inr c, w1) \<longrightarrow>
      (requests w1 = requests w \<or>
       requests w1 = requests w @ [POST sparql_endpoint (sparql_query k)]) \<and>
      geocode E k (after_calls E w1 cs) = (Inr c, after_calls E w1 cs)) \<and>
   (dbpedia_lookup E t w = (Inl e, w1) \<longrightarrow>
      w1 = w\<lparr>requests := requests w @ [GET (lookup_url t)]\<rparr> \<and>
      dbpedia_lookup E t (after_calls E w1 cs) =
        (Inl e, (after_calls E w1 cs)
           \<lparr>requests := requests (after_calls E w1 cs) @ [GET (lookup_url t)]\<rparr>)) \<and>
   (geocode E k w = (Inl e, w1) \<and> hashable k \<longrightarrow>
      w1 = w\<lparr>requests := requests w @ [POST sparql_endpoint (sparql_query k)]\<rparr> \<and>
      geocode E k (after_calls E w1 cs) =
        (Inl e, (after_calls E w1 cs)
           \<lparr>requests := requests (after_calls E w1 cs) @
              [POST sparql_endpoint (sparql_query k)]\<rparr>))"
proof -
  have ext: "extends w1 (after_calls E w1 cs)" by (rule after_calls_extends)
  have a: "dbpedia_lookup E t (after_calls E w1 cs) = (Inr r, after_calls E w1 cs)"
    if "dbpedia_lookup E t w = (Inr r, w1)"
  proof -
    have "map_of (lookup_cache w1) t = Some r" using that by (rule dbpedia_lookup_stores)
    then have "map_of (lookup_cache (after_calls E w1 cs)) t = Some r"
      using ext by (simp add: extends_def)
    then show ?thesis by (rule dbpedia_lookup_hit)
  qed
  have a': "requests w1 = requests w \<or> requests w1 = requests w @ [GET (lookup_url t)]"
    if "dbpedia_lookup E t w = (Inr r, w1)"
    using dbpedia_lookup_requests [of E t w] that by simp
  have b: "dbpedia_top1 E t (after_calls E w1 cs) = (Inr u, after_calls E w1 cs)"
    if "dbpedia_top1 E t w = (Inr u, w1)"
  proof -
    have "map_of (top1_cache w1) t = Some u" using that by (rule dbpedia_top1_stores)
    then have "map_of (top1_cache (after_calls E w1 cs)) t = Some u"
      using ext by (simp add: extends_def)
    then show ?thesis by (rule dbpedia_top1_hit)
  qed
  have b': "requests w1 = requests w \<or> requests w1 = requests w @ [GET (lookup_url t)]"
    if "dbpedia_top1 E t w = (Inr u, w1)"
    using dbpedia_top1_requests [of E t w] that by simp
  have c: "geocode E k (after_calls E w1 cs) = (Inr c, after_calls E w1 cs)"
    if "geocode E k w = (Inr c, w1)"
  proof -
    have h: "hashable k \<and> map_of (geocode_cache w1) k = Some c"
      using that by (rule geocode_stores)
    then have "map_of (geocode_cache (after_calls E w1 cs)) k = Some c"
      using ext unfolding extends_def by blast
    then show ?thesis using h by (simp add: geocode_hit)
  qed
  have c': "requests w1 = requests w \<or>
            requests w1 = requests w @ [POST sparql_endpoint (sparql_query k)]"
    if "geocode E k w = (Inr c, w1)"
    using geocode_requests [of E k w] that by simp
  have d: "w1 = w\<lparr>requests := requests w @ [GET (lookup_url t)]\<rparr>"
    if "dbpedia_lookup E t w = (Inl e, w1)"
    using dbpedia_lookup_raises [OF that] by simp
  have d': "dbpedia_lookup E t (after_calls E w1 cs) =
        (Inl e, (after_calls E w1 cs)
           \<lparr>requests := requests (after_calls E w1 cs) @ [GET (lookup_url t)]\<rparr>)"
    if "dbpedia_lookup E t w = (Inl e, w1)"
    using that by (rule dbpedia_lookup_raises_again)
  have g: "w1 = w\<lparr>requests := requests w @ [POST sparql_endpoint (sparql_query k)]\<rparr>"
    if "geocode E k w = (Inl e, w1)" and "hashable k"
    using geocode_raises [OF that] by simp
  have g': "geocode E k (after_calls E w1 cs) =
        (Inl e, (after_calls E w1 cs)
           \<lparr>requests := requests (after_calls E w1 cs) @
              [POST sparql_endpoint (sparql_query k)]\<rparr>)"
    if "geocode E k w = (Inl e, w1)" and "hashable k"
    using that by (rule geocode_raises_again)
  show ?thesis
    apply (intro conjI impI)
    using a a' b b' c c' d d' g g' by blast+
qed

text \<open>
  The theorem at Paris, with a batch and a failing lookup between the two calls, at the
  lookup of Brest, whose request fails, and at the geocoding of Marseille, whose request
  fails.
\<close>

theorem returned_value_is_served_from_the_cache_witness:
  "fst (dbpedia_lookup sample_env ''Paris'' init_world) =
     Inr (JArr [doc_of (uri_of ''Paris''), doc_of (uri_of ''Paris_(Texas)'')]) \<and>
   dbpedia_lookup sample_env ''Paris''
     (after_calls sample_env (snd (dbpedia_lookup sample_env ''Paris'' init_world))
        [FetchAndMap [''Lyon'', ''Paris'', ''Marseille''], Lookup ''Brest'']) =
     (Inr (JArr [doc_of (uri_of ''Paris''), doc_of (uri_of ''Paris_(Texas)'')]),
      after_calls sample_env (snd (dbpedia_lookup sample_env ''Paris'' init_world))
        [FetchAndMap [''Lyon'', ''Paris'', ''Marseille''], Lookup ''Brest'']) \<and>
   fst (dbpedia_top1 sample_env ''Paris'' init_world) = Inr (JStr (uri_of ''Paris'')) \<and>
   dbpedia_top1 sample_env ''Paris''
     (after_calls sample_env (snd (dbpedia_top1 sample_env ''Paris'' init_world))
        [FetchAndMap [''Lyon'', ''Paris'', ''Marseille''], Lookup ''Brest'']) =
     (Inr (JStr (uri_of ''Paris'')),
      after_calls sample_env (snd (dbpedia_top1 sample_env ''Paris'' init_world))
        [FetchAndMap [''Lyon'', ''Paris'', ''Marseille''], Lookup ''Brest'']) \<and>
   fst (geocode sample_env (JStr (uri_of ''Paris'')) init_world) =
     Inr (Some (Fin (195 / 4)), Some (Fin (5 / 2))) \<and>
   geocode sample_env (JStr (uri_of ''Paris''))
     (after_calls sample_env (snd (geocode sample_env (JStr (uri_of ''Paris'')) init_world))
        [FetchAndMap [''Lyon'', ''Paris'', ''Marseille''], Lookup ''Brest'']) =
     (Inr (Some (Fin (195 / 4)), Some (Fin (5 / 2))),
      after_calls sample_env (snd (geocode sample_env (JStr (uri_of ''Paris'')) init_world))
        [FetchAndMap [''Lyon'', ''Paris'', ''Marseille''], Lookup ''Brest'']) \<and>
   fst (dbpedia_lookup sample_env ''Brest'' init_world) = Inl ConnectionError \<and>
   fst (dbpedia_lookup sample_env ''Brest''
     (after_calls sample_env (snd (dbpedia_lookup sample_env ''Brest'' init_world))
        [FetchAndMap [''Lyon'', ''Paris''], Top1 ''Brest''])) = Inl ConnectionError \<and>
   requests (snd (dbpedia_lookup sample_env ''Brest''
     (after_calls sample_env (snd (dbpedia_lookup sample_env ''Brest'' init_world))
        [FetchAndMap [''Lyon'', ''Paris''], Top1 ''Brest'']))) =
     requests (after_calls sample_env (snd (dbpedia_lookup sample_env ''Brest'' init_world))
        [FetchAndMap [''Lyon'', ''Paris''], Top1 ''Brest'']) @ [GET (lookup_url ''Brest'')] \<and>
   fst (geocode sample_env (JStr (uri_of ''Marseille'')) init_world) = Inl HTTPError \<and>
   requests (snd (geocode sample_env (JStr (uri_of ''Marseille''))
     (after_calls sample_env (snd (geocode sample_env (JStr (uri_of ''Marseille'')) init_world))
        [FetchAndMap [''Lyon'', ''Paris'']]))) =
     requests (after_calls sample_env
        (snd (geocode sample_env (JStr (uri_of ''Marseille'')) init_world))
        [FetchAndMap [''Lyon'', ''Paris'']]) @
     [POST sparql_endpoint (sparql_query (JStr (uri_of ''Marseille'')))]"
proof -
  have a: "fst (dbpedia_lookup sample_env ''Paris'' init_world) =
     Inr (JArr [doc_of (uri_of ''Paris''), doc_of (uri_of ''Paris_(Texas)'')])"
    by code_simp
  have b: "fst (dbpedia_top1 sample_env ''Paris'' init_world) = Inr (JStr (uri_of ''Paris''))"
    by code_simp
  have c: "fst (geocode sample_env (JStr (uri_of ''Paris'')) init_world) =
     Inr (Some (Fin (195 / 4)), Some (Fin (5 / 2)))"
    by code_simp
  have d: "fst (dbpedia_lookup sample_env ''Brest'' init_world) = Inl ConnectionError"
    by code_simp
  have g: "fst (geocode sample_env (JStr (uri_of ''Marseille'')) init_world) = Inl HTTPError"
    by code_simp
  have h: "hashable (JStr (uri_of ''Marseille''))" by simp
  note t = returned_value_is_served_from_the_cache
  have a': "dbpedia_lookup sample_env ''Paris''
     (after_calls sample_env (snd (dbpedia_lookup sample_env ''Paris'' init_world))
        [FetchAndMap [''Lyon'', ''Paris'', ''Marseille''], Lookup ''Brest'']) =
     (Inr (JArr [doc_of (uri_of ''Paris''), doc_of (uri_of ''Paris_(Texas)'')]),
      after_calls sample_env (snd (dbpedia_lookup sample_env ''Paris'' init_world))
        [FetchAndMap [''Lyon'', ''Paris'', ''Marseille''], Lookup ''Brest''])"
    using t pair_fstI [OF a] by blast
  have b': "dbpedia_top1 sample_env ''Paris''
     (after_calls sample_env (snd (dbpedia_top1 sample_env ''Paris'' init_world))
        [FetchAndMap [''Lyon'', ''Paris'', ''Marseille''], Lookup ''Brest'']) =
     (Inr (JStr (uri_of ''Paris'')),
      after_calls sample_env (snd (dbpedia_top1 sample_env ''Paris'' init_world))
        [FetchAndMap [''Lyon'', ''Paris'', ''Marseille''], Lookup ''Brest''])"
    using t pair_fstI [OF b] by blast
  have c': "geocode sample_env (JStr (uri_of ''Paris''))
     (after_calls sample_env (snd (geocode sample_env (JStr (uri_of ''Paris'')) init_world))
        [FetchAndMap [''Lyon'', ''Paris'', ''Marseille''], Lookup ''Brest'']) =
     (Inr (Some (Fin (195 / 4)), Some (Fin (5 / 2))),
      after_calls sample_env (snd (geocode sample_env (JStr (uri_of ''Paris'')) init_world))
        [FetchAndMap [''Lyon'', ''Paris'', ''Marseille''], Lookup ''Brest''])"
    using t pair_fstI [OF c] by blast
  have d': "dbpedia_lookup sample_env ''Brest''
     (after_calls sample_env (snd (dbpedia_lookup sample_env ''Brest'' init_world))
        [FetchAndMap [''Lyon'', ''Paris''], Top1 ''Brest'']) =
     (Inl ConnectionError,
      (after_calls sample_env (snd (dbpedia_lookup sample_env ''Brest'' init_world))
        [FetchAndMap [''Lyon'', ''Paris''], Top1 ''Brest''])
      \<lparr>requests := requests (after_calls sample_env
          (snd (dbpedia_lookup sample_env ''Brest'' init_world))
          [FetchAndMap [''Lyon'', ''Paris''], Top1 ''Brest'']) @ [GET (lookup_url ''Brest'')]\<rparr>)"
    using t pair_fstI [OF d] by blast
  have g': "geocode sample_env (JStr (uri_of ''Marseille''))
     (after_calls sample_env (snd (geocode sample_env (JStr (uri_of ''Marseille'')) init_world))
        [FetchAndMap [''Lyon'', ''Paris'']]) =
     (Inl HTTPError,
      (after_calls sample_env (snd (geocode sample_env (JStr (uri_of ''Marseille'')) init_world))
        [FetchAndMap [''Lyon'', ''Paris'']])
      \<lparr>requests := requests (after_calls sample_env
          (snd (geocode sample_env (JStr (uri_of ''Marseille'')) init_world))
          [FetchAndMap [''Lyon'', ''Paris'']]) @
          [POST sparql_endpoint (sparql_query (JStr (uri_of ''Marseille'')))]\<rparr>)"
    using t pair_fstI [OF g] h by blast
  show ?thesis
    apply (intro conjI)
    using a a' b b' c c' d g by (simp_all add: d' g')
qed

text \<open>
  Claim C8 as stated fails for a call that raises: nothing is stored, and the request for
  the same key is sent again by the next call.
\<close>

theorem failed_request_is_sent_again:
  "fst (dbpedia_lookup sample_env ''Brest'' init_world) = Inl ConnectionError \<and>
   requests (after_calls sample_env init_world [Lookup ''Brest'', Lookup ''Brest'']) =
     [GET (lookup_url ''Brest''), GET (lookup_url ''Brest'')] \<and>
   requests (after_calls sample_env init_world [Top1 ''Brest'', Top1 ''Brest'']) =
     [GET (lookup_url ''Brest''), GET (lookup_url ''Brest'')] \<and>
   requests (after_calls sample_env init_world
      [Geocode (JStr (uri_of ''Marseille'')), Geocode (JStr (uri_of ''Marseille''))]) =
     [POST sparql_endpoint (sparql_query (JStr (uri_of ''Marseille''))),
      POST sparql_endpoint (sparql_query (JStr (uri_of ''Marseille'')))]"
  by code_simp

subsection \<open>C9: a value that is not a number\<close>

text \<open>
  Claim C9, as amended. When the latitude and the longitude of the first binding are strings
  and \<open>float\<close> rejects one of them, an uncached call of \<open>geocode\<close> raises
  \<open>ValueError\<close> after its request and stores nothing.
\<close>

theorem unparseable_coordinate_raises:
  assumes "hashable uri" and "map_of (geocode_cache w) uri = None"
    and "sparql_service E (sparql_query uri) = Inr json_response"
    and "bindings_of json_response = Inr (JArr (b # bs))"
    and "binding_value b ''lat'' = Inr (JStr a)"
    and "binding_value b ''long'' = Inr (JStr c)"
    and "float_of_str E a = None \<or> float_of_str E c = None"
  shows "geocode E uri w =
           (Inl ValueError,
            w\<lparr>requests := requests w @ [POST sparql_endpoint (sparql_query uri)]\<rparr>)"
proof -
  have "lat_long_of E b = Inl ValueError"
    using assms(5,6,7) by (auto simp: lat_long_of_def float_or_None_def split: option.splits)
  then have "coords_of E json_response = Inl ValueError"
    using assms(4) by (simp add: coords_of_def)
  then have "geocode_value E uri = Inl ValueError"
    using assms(1,3) by (simp add: geocode_value_def)
  then show ?thesis using assms(1,2) by (simp add: geocode_miss)
qed

text \<open>
  The theorem at Babel, whose latitude is the string \<open>trente-deux\<close>.
\<close>

theorem unparseable_coordinate_raises_witness:
  "float_of_str sample_env ''trente-deux'' = None \<and>
   geocode sample_env (JStr (uri_of ''Babel'')) init_world =
     (Inl ValueError,
      init_world\<lparr>requests := requests init_world @
         [POST sparql_endpoint (sparql_query (JStr (uri_of ''Babel'')))]\<rparr>)"
proof -
  have h1: "hashable (JStr (uri_of ''Babel''))" by simp
  have h2: "map_of (geocode_cache init_world) (JStr (uri_of ''Babel'')) = None"
    by (simp add: init_world_def)
  have h3: "sparql_service sample_env (sparql_query (JStr (uri_of ''Babel''))) =
              Inr (sparql_answer [lat_long ''trente-deux'' ''44.5''])"
    by code_simp
  have h4: "bindings_of (sparql_answer [lat_long ''trente-deux'' ''44.5'']) =
              Inr (JArr (lat_long ''trente-deux'' ''44.5'' # []))"
    by code_simp
  have h5: "binding_value (lat_long ''trente-deux'' ''44.5'') ''lat'' = Inr (JStr ''trente-deux'')"
    by code_simp
  have h6: "binding_value (lat_long ''trente-deux'' ''44.5'') ''long'' = Inr (JStr ''44.5'')"
    by code_simp
  have h7: "float_of_str sample_env ''trente-deux'' = None" by code_simp
  from h7 have h8: "float_of_str sample_env ''trente-deux'' = None \<or>
      float_of_str sample_env ''44.5'' = None" by (rule disjI1)
  show ?thesis using unparseable_coordinate_raises [OF h1 h2 h3 h4 h5 h6 h8] h7 by simp
qed

text \<open>
  Claim C9 as stated fails there: \<open>geocode\<close> raises and does not return the absent
  pair.
\<close>

theorem geocode_raises_ValueError:
  "sparql_service sample_env (sparql_query (JStr (uri_of ''Babel''))) =
     Inr (sparql_answer [lat_long ''trente-deux'' ''44.5'']) \<and>
   float_of_str sample_env ''trente-deux'' = None \<and>
   fst (geocode sample_env (JStr (uri_of ''Babel'')) init_world) = Inl ValueError \<and>
   fst (geocode sample_env (JStr (uri_of ''Babel'')) init_world) \<noteq> Inr (None, None)"
  by code_simp

subsection \<open>C10: a document without a resource\<close>

text \<open>
  Claim C10. When the lookup returns a non-empty list whose first document is an object,
  an uncached call of \<open>dbpedia_top1\<close> raises \<open>TypeError\<close> if the document has no
  \<open>resource\<close> field (\<open>None[0]\<close>), raises \<open>IndexError\<close> if the field is an empty
  list, and returns the first element of a non-empty list, which it stores.
\<close>

theorem dbpedia_top1_needs_a_resource:
  assumes "map_of (top1_cache w) t = None"
    and "dbpedia_lookup E t w = (Inr (JArr (JObj doc # docs)), w1)"
  shows "(map_of doc ''resource'' = None \<longrightarrow> dbpedia_top1 E t w = (Inl TypeError, w1)) \<and>
         (map_of doc ''resource'' = Some (JArr []) \<longrightarrow>
            dbpedia_top1 E t w = (Inl IndexError, w1)) \<and>
         (\<forall>u us. map_of doc ''resource'' = Some (JArr (u # us)) \<longrightarrow>
            dbpedia_top1 E t w = (Inr u, w1\<lparr>top1_cache := (t, u) # top1_cache w1\<rparr>))"
  using assms by (simp add: dbpedia_top1_miss top1_of_def)

text \<open>
  The theorem at Eden (no \<open>resource\<close> field), Limbes (an empty list) and Paris.
\<close>

theorem dbpedia_top1_needs_a_resource_witness:
  "fst (dbpedia_lookup sample_env ''Eden'' init_world) =
     Inr (JArr [JObj [(''label'', JArr [JStr ''Eden''])]]) \<and>
   fst (dbpedia_top1 sample_env ''Eden'' init_world) = Inl TypeError \<and>
   fst (dbpedia_top1 sample_env ''Limbes'' init_world) = Inl IndexError \<and>
   fst (dbpedia_top1 sample_env ''Paris'' init_world) = Inr (JStr (uri_of ''Paris''))"
proof -
  have c: "map_of (top1_cache init_world) t = None" for t by (simp add: init_world_def)
  have a0: "fst (dbpedia_lookup sample_env ''Eden'' init_world) =
      Inr (JArr (JObj [(''label'', JArr [JStr ''Eden''])] # []))"
    by code_simp
  have a': "map_of [(''label'', JArr [JStr ''Eden''])] ''resource'' = None" by simp
  have b0: "fst (dbpedia_lookup sample_env ''Limbes'' init_world) =
      Inr (JArr (JObj [(''resource'', JArr [])] # []))"
    by code_simp
  have b': "map_of [(''resource'', JArr [])] ''resource'' = Some (JArr [])" by simp
  have p0: "fst (dbpedia_lookup sample_env ''Paris'' init_world) =
      Inr (JArr (JObj [(''resource'', JArr [JStr (uri_of ''Paris'')])] #
                 [doc_of (uri_of ''Paris_(Texas)'')]))"
    by code_simp
  have p': "map_of [(''resource'', JArr [JStr (uri_of ''Paris'')])] ''resource'' =
      Some (JArr (JStr (uri_of ''Paris'') # []))" by simp
  have r1: "fst (dbpedia_top1 sample_env ''Eden'' init_world) = Inl TypeError"
    using dbpedia_top1_needs_a_resource [OF c pair_fstI [OF a0]] a' by simp
  have r2: "fst (dbpedia_top1 sample_env ''Limbes'' init_world) = Inl IndexError"
    using dbpedia_top1_needs_a_resource [OF c pair_fstI [OF b0]] b' by simp
  have r3: "fst (dbpedia_top1 sample_env ''Paris'' init_world) = Inr (JStr (uri_of ''Paris''))"
    using dbpedia_top1_needs_a_resource [OF c pair_fstI [OF p0]] p' by simp
  show ?thesis using a0 r1 r2 r3 by simp
qed

end
